theory Spec2Isabelle
  imports Complex_Main "HOL-Library.Word"
begin

section \<open>The sampling driver \<open>opti_exp\<close>\<close>

text \<open>
  The repository's source is one exported function, \<open>opti_exp\<close>
  (R-proj/src/temp_folder/optimization_experiment.cpp). It builds a random
  spectrahedron, preprocesses it, runs Boltzmann-HMC walks in three nested loops and
  returns a matrix. Everything it calls lives in headers that are not among the
  sources; those callees are the fields of the record \<open>externals\<close> below, so every
  statement about the driver holds for whatever they compute.
\<close>

subsection \<open>Scalars, vectors, matrices\<close>

text \<open>
  \<open>typedef double NT\<close>, the Eigen column vector \<open>VT\<close> and the Eigen matrix \<open>MT\<close> (a list
  of rows). Doubles are read as real numbers; the only arithmetic the driver itself
  does on them is one multiplication by 2.0, which binary floating point does
  exactly unless it overflows.
\<close>

type_synonym NT = real
type_synonym VT = "NT list"
type_synonym MT = "NT list list"
type_synonym Point = "NT list"

text \<open>
  A local \<open>NT\<close> declared without an initialiser (\<open>NT nballs2, diam_spec, vol_spec, rad\<close>,
  line 64) holds no value until something is stored in it: \<open>None\<close>. Copying such a
  local copies \<open>None\<close>, and arithmetic on it gives \<open>None\<close>.
\<close>

type_synonym NT_local = "NT option"

text \<open>\<open>typedef boost::mt19937 RNGType\<close>: the seed it was built from and how many numbers
  have been drawn from it determine its state.\<close>

record RNGType =
  rng_seed :: "32 word"
  rng_drawn :: nat

text \<open>What can end the call early. \<open>NotCompatible\<close> is what \<open>Rcpp::as\<close> throws on an
  R \<open>NULL\<close>; the other three are the fatal errors of the callees. The driver has no
  \<open>try\<close> block, so whatever a callee throws leaves \<open>opti_exp\<close> at once.\<close>

datatype error = NotCompatible | DimensionMismatch | Infeasible | UnboundedDirection

text \<open>\<open>Rcpp::Nullable<T>\<close> with the default \<open>R_NilValue\<close>: \<open>None\<close> is R's \<open>NULL\<close>.\<close>

type_synonym 'a Nullable = "'a option"

definition Rcpp_as :: "'a Nullable \<Rightarrow> error + 'a" where
  "Rcpp_as x = (case x of None \<Rightarrow> Inl NotCompatible | Some v \<Rightarrow> Inr v)"

subsection \<open>The structures the driver fills in\<close>

text \<open>
  Modelled from the spec: class \<open>LMI\<close> of spectrahedron.h, which is not among the
  sources. An LMI is an ordered sequence of n+1 symmetric m-by-m matrices, A0 and
  A1..An.
\<close>

record LMI =
  getA0 :: MT
  getAi :: "MT list"

text \<open>Modelled from the spec: class \<open>Spectrahedron\<close> of spectrahedron.h, which is not among
  the sources. A spectrahedron owns one LMI.\<close>

record Spectrahedron =
  getLMI :: LMI

text \<open>
  Modelled from the spec: vars.h is not among the sources. The structure is taken to
  keep the twenty-four arguments of its constructor as given, in order (lines 67-68);
  line 88 names the eleventh, \<open>diameter\<close>.
\<close>

record vars =
  vars_m :: nat
  vars_n :: "32 word"
  walk_steps :: nat
  n_threads :: nat
  err :: NT
  error_v :: NT
  lw :: int
  up :: NT
  vars_L :: int
  che_rad :: NT_local
  diameter :: NT_local
  rng :: RNGType
  urdist :: "NT \<times> NT"
  urdist1 :: "NT \<times> NT"
  delta :: NT
  verbose :: bool
  rand_only :: bool
  round_v :: bool
  NN :: bool
  birk :: bool
  ball_walk :: bool
  cdhr_walk :: bool
  rdhr_walk :: bool
  bill_walk :: bool

text \<open>
  Modelled from the spec: the billiard settings class of spectrahedron.h, which is not
  among the sources. It holds the cached matrix A(p) at the current point (line 72
  names the field).
\<close>

record BoundaryOracleBilliardSettings =
  LMIatP :: MT

text \<open>
  Modelled from the spec: the Boltzmann-HMC settings class of spectrahedron.h, which is
  not among the sources. It holds a first-step flag and an epsilon (lines 78 and 79
  name the fields).
\<close>

record BoundaryOracleBoltzmannHMCSettings =
  first :: bool
  epsilon :: NT

subsection \<open>What the driver calls\<close>

text \<open>The eight arguments of \<open>preproccess_spectrahedron\<close> (line 73). All are lvalues of
  the driver, so the callee may store into any of them.\<close>

record prep_refs =
  r_SP :: Spectrahedron
  r_p :: Point
  r_var :: vars
  r_settings :: BoundaryOracleBilliardSettings
  r_round_value :: NT_local
  r_diam_spec :: NT_local
  r_rad :: NT_local
  r_round :: bool

text \<open>
  Modelled from the spec: the declarations of the callees (sdp_generator.h,
  cartesian_kernel.h, rounding.h, samplers.h) are not among the sources, so each
  callee is a field here: a function from the arguments the driver passes to what
  the call may change. Preprocessing may store into all eight of its arguments. A
  walk is a function of its inputs and the random stream whose settings are passed
  by mutable reference (sections 6 and 9): it takes the spectrahedron, the direction
  \<open>c\<close>, the diameter and the time as inputs and leaves its results in the current
  point, in the configuration (which carries the generator) and in the settings.
  The two identifiers the function reads without declaring them, \<open>N2\<close> (line 92) and
  \<open>Ratios\<close> (line 107), are fields as well, and so is the clock that seeds the
  generator (line 53).
\<close>

record externals =
  clock_seed :: "32 word"
  generateSDP2 :: "32 word \<Rightarrow> 32 word \<Rightarrow> error + Spectrahedron"
  new_Point :: "32 word \<Rightarrow> Point"
  preproccess_spectrahedron :: "prep_refs \<Rightarrow> error + prep_refs"
  get_direction :: "32 word \<Rightarrow> Point"
  HMC_boltzmann_reflections ::
    "Spectrahedron \<Rightarrow> Point \<Rightarrow> NT_local \<Rightarrow> vars \<Rightarrow> Point \<Rightarrow> NT_local
      \<Rightarrow> BoundaryOracleBoltzmannHMCSettings
      \<Rightarrow> error + Point \<times> vars \<times> BoundaryOracleBoltzmannHMCSettings"
  hit_and_run_Boltzmann_spec ::
    "Point \<Rightarrow> Spectrahedron \<Rightarrow> vars \<Rightarrow> Point \<Rightarrow> NT_local \<Rightarrow> error + Point \<times> vars"
  N2 :: "32 word Nullable"
  Ratios :: MT

text \<open>One invocation of the walk, as the driver made it: the seven arguments of line 94
  and what came back.\<close>

record walk_call =
  arg_SP :: Spectrahedron
  arg_p :: Point
  arg_diam :: NT_local
  arg_var :: vars
  arg_c :: Point
  arg_T :: NT_local
  arg_settings :: BoundaryOracleBoltzmannHMCSettings
  came_back :: "error + Point \<times> vars \<times> BoundaryOracleBoltzmannHMCSettings"

text \<open>The locals the sampling loops change, the invocations made so far, the lines
  printed so far, and the exception in flight, if any.\<close>

record locals =
  l_p :: Point
  l_var :: vars
  l_settings2 :: BoundaryOracleBoltzmannHMCSettings
  l_randPoints :: "Point list"
  l_walks :: "walk_call list"
  l_cout :: "string list"
  l_thrown :: "error option"

text \<open>What a call of \<open>opti_exp\<close> leaves behind: the value handed to R (or the error), and
  for inspection the list \<open>randPoints\<close> as it stood at the end, the walk invocations,
  the console lines and the arguments of the one file written.\<close>

record run =
  returned :: "error + MT"
  randPoints :: "Point list"
  walks :: "walk_call list"
  cout :: "string list"
  sdp_prob_txt :: "(LMI \<times> VT) option"

subsection \<open>Lines 45-73: up to and including preprocessing\<close>

text \<open>Lines 61-68. \<open>std::pair<Point,NT> InnerB\<close> is default-constructed, which
  value-initialises its second component to 0.0; \<open>InnerB.first = p\<close> does not touch it
  and the inner-ball computation that would is commented out. \<open>diam_spec\<close> has no
  initialiser.\<close>

definition InnerB_second :: NT_local where
  "InnerB_second = Some 0"

definition diam_spec_declared :: NT_local where
  "diam_spec_declared = None"

definition rad_declared :: NT_local where
  "rad_declared = None"

definition var_constructed :: "externals \<Rightarrow> 32 word \<Rightarrow> vars" where
  "var_constructed E nn =
     \<lparr>vars_m = 0, vars_n = nn, walk_steps = 1, n_threads = 1, err = 0, error_v = 1 / 10,
      lw = 0, up = 0, vars_L = 0, che_rad = InnerB_second, diameter = diam_spec_declared,
      rng = \<lparr>rng_seed = clock_seed E, rng_drawn = 0\<rparr>, urdist = (0, 1), urdist1 = (- 1, 1),
      delta = - 1, verbose = True, rand_only = False, round_v = False, NN = False,
      birk = False, ball_walk = False, cdhr_walk = False, rdhr_walk = False,
      bill_walk = True\<rparr>"

text \<open>Lines 45-72: the conversions of \<open>nn\<close>, \<open>walk_length\<close> and \<open>mm\<close> in the order the
  lines make them, the generated spectrahedron, and the eight arguments as they
  stand when line 73 hands them to preprocessing. The billiard settings are built
  for the matrix dimension (line 71) and their one field is overwritten at once
  (line 72), so only the overwritten field is kept.\<close>

definition prologue ::
  "externals \<Rightarrow> 32 word Nullable \<Rightarrow> 32 word Nullable \<Rightarrow> 32 word Nullable
     \<Rightarrow> error + 32 word \<times> 32 word \<times> prep_refs"
where
  "prologue E nn mm walk_length =
     (case Rcpp_as nn of
        Inl e \<Rightarrow> Inl e
      | Inr n \<Rightarrow>
         (case Rcpp_as walk_length of
            Inl e \<Rightarrow> Inl e
          | Inr W \<Rightarrow>
             (case Rcpp_as mm of
                Inl e \<Rightarrow> Inl e
              | Inr m \<Rightarrow>
                 (case generateSDP2 E n m of
                    Inl e \<Rightarrow> Inl e
                  | Inr SP \<Rightarrow>
                      Inr (n, W,
                           \<lparr>r_SP = SP, r_p = new_Point E n, r_var = var_constructed E n,
                            r_settings = \<lparr>LMIatP = getA0 (getLMI SP)\<rparr>,
                            r_round_value = Some 1, r_diam_spec = diam_spec_declared,
                            r_rad = rad_declared, r_round = False\<rparr>)))))"

text \<open>Line 73. The converted \<open>n\<close> and \<open>walk_length\<close> are passed on beside the eight
  arguments as preprocessing left them.\<close>

definition preprocessed ::
  "externals \<Rightarrow> 32 word Nullable \<Rightarrow> 32 word Nullable \<Rightarrow> 32 word Nullable
     \<Rightarrow> error + 32 word \<times> 32 word \<times> prep_refs"
where
  "preprocessed E nn mm walk_length =
     (case prologue E nn mm walk_length of Inl e \<Rightarrow> Inl e
      | Inr (n, W, r) \<Rightarrow>
         (case preproccess_spectrahedron E r of Inl e \<Rightarrow> Inl e
          | Inr r' \<Rightarrow> Inr (n, W, r')))"

subsection \<open>Lines 77-105: sampling\<close>

text \<open>Lines 77-79.\<close>

definition settings2_constructed :: BoundaryOracleBoltzmannHMCSettings where
  "settings2_constructed = \<lparr>first = True, epsilon = 1 / 10000\<rparr>"

text \<open>Line 88: \<open>NT T = 2.0 * var.diameter\<close>.\<close>

definition total_time :: "vars \<Rightarrow> NT_local" where
  "total_time var = map_option (\<lambda>d. 2 * d) (diameter var)"

text \<open>Line 94, once. Nothing runs while an exception is in flight.\<close>

definition HMC_step ::
  "externals \<Rightarrow> Spectrahedron \<Rightarrow> NT_local \<Rightarrow> Point \<Rightarrow> NT_local \<Rightarrow> locals \<Rightarrow> locals"
where
  "HMC_step E SP diam c T s =
     (case l_thrown s of Some e \<Rightarrow> s
      | None \<Rightarrow>
         (let res = HMC_boltzmann_reflections E SP (l_p s) diam (l_var s) c T (l_settings2 s);
              w = \<lparr>arg_SP = SP, arg_p = l_p s, arg_diam = diam, arg_var = l_var s, arg_c = c,
                   arg_T = T, arg_settings = l_settings2 s, came_back = res\<rparr>
          in case res of
               Inl e \<Rightarrow> s\<lparr>l_walks := l_walks s @ [w], l_thrown := Some e\<rparr>
             | Inr (p', var', st') \<Rightarrow>
                 s\<lparr>l_p := p', l_var := var', l_settings2 := st',
                   l_walks := l_walks s @ [w]\<rparr>))"

text \<open>Lines 93-96: \<open>walk_length\<close> walks, then \<open>randPoints.push_back(p)\<close>. The counter
  \<open>j\<close> is an \<open>int\<close> compared with an \<open>unsigned int\<close>, so it is read as unsigned and the
  body runs as many times as the bound says. (Past 2^31 - 1 passes the increment of
  the counter leaves the range of \<open>int\<close>; the loop is taken to run on to its bound, as
  it does where the increment wraps.)\<close>

definition sample_step ::
  "externals \<Rightarrow> Spectrahedron \<Rightarrow> NT_local \<Rightarrow> Point \<Rightarrow> NT_local \<Rightarrow> 32 word \<Rightarrow> locals \<Rightarrow> locals"
where
  "sample_step E SP diam c T W s =
     (let s1 = (HMC_step E SP diam c T ^^ unat W) s
      in case l_thrown s1 of Some e \<Rightarrow> s1
         | None \<Rightarrow> s1\<lparr>l_randPoints := l_randPoints s1 @ [l_p s1]\<rparr>)"

text \<open>Lines 90-98, one pass of the outer loop: the bound of the middle loop is
  \<open>Rcpp::as<unsigned int>(N2)\<close>, then one line is printed.\<close>

definition batch_step ::
  "externals \<Rightarrow> Spectrahedron \<Rightarrow> NT_local \<Rightarrow> Point \<Rightarrow> NT_local \<Rightarrow> 32 word \<Rightarrow> locals \<Rightarrow> locals"
where
  "batch_step E SP diam c T W s =
     (case l_thrown s of Some e \<Rightarrow> s
      | None \<Rightarrow>
         (case Rcpp_as (N2 E) of
            Inl e \<Rightarrow> s\<lparr>l_thrown := Some e\<rparr>
          | Inr n2 \<Rightarrow>
             (let s1 = (sample_step E SP diam c T W ^^ unat n2) s
              in case l_thrown s1 of Some e \<Rightarrow> s1
                 | None \<Rightarrow> s1\<lparr>l_cout := l_cout s1 @ [''HMC points sampled..'']\<rparr>)))"

text \<open>Lines 74-89: the locals as the loops find them. Line 74 refreshes the billiard
  settings, which nothing reads afterwards; line 75 replaces \<open>p\<close> by a fresh point;
  \<open>settings2\<close> is built here, once.\<close>

definition locals_at_start :: "externals \<Rightarrow> 32 word \<Rightarrow> prep_refs \<Rightarrow> locals" where
  "locals_at_start E n r =
     \<lparr>l_p = new_Point E n, l_var = r_var r, l_settings2 = settings2_constructed,
      l_randPoints = [], l_walks = [], l_cout = [''Starting sampling..''],
      l_thrown = None\<rparr>"

text \<open>Lines 90-102: \<open>for (int k = 0; k < 5; ++k)\<close>, with \<open>c\<close> of line 81 and \<open>T\<close> of
  line 88.\<close>

definition sampling ::
  "externals \<Rightarrow> 32 word \<Rightarrow> 32 word \<Rightarrow> prep_refs \<Rightarrow> Point \<Rightarrow> NT_local \<Rightarrow> locals"
where
  "sampling E n W r c T =
     (batch_step E (r_SP r) (r_diam_spec r) c T W ^^ 5) (locals_at_start E n r)"

text \<open>Lines 105-107: one hit-and-run call, then \<open>return Rcpp::wrap(Ratios)\<close>.\<close>

definition epilogue :: "externals \<Rightarrow> prep_refs \<Rightarrow> Point \<Rightarrow> NT_local \<Rightarrow> locals \<Rightarrow> error + MT"
where
  "epilogue E r c T s =
     (case l_thrown s of Some e \<Rightarrow> Inl e
      | None \<Rightarrow>
         (case hit_and_run_Boltzmann_spec E (l_p s) (r_SP r) (l_var s) c T of
            Inl e \<Rightarrow> Inl e
          | Inr _ \<Rightarrow> Inr (Ratios E)))"

subsection \<open>The function\<close>

text \<open>The six parameters in the order of lines 30-35; \<open>N\<close>, \<open>M\<close> and \<open>walk_type\<close> are
  never read. A call that fails before line 89 has sampled nothing and printed
  nothing. Line 81 draws the direction \<open>c\<close>, line 86 writes the LMI and \<open>c\<close> to the
  file, line 88 computes \<open>T\<close>.\<close>

definition opti_exp ::
  "externals \<Rightarrow> 32 word Nullable \<Rightarrow> 32 word Nullable \<Rightarrow> 32 word Nullable \<Rightarrow> 32 word Nullable
     \<Rightarrow> 32 word Nullable \<Rightarrow> 32 word Nullable \<Rightarrow> run"
where
  "opti_exp E nn mm N M walk_length walk_type =
     (case preprocessed E nn mm walk_length of
        Inl e \<Rightarrow> \<lparr>returned = Inl e, randPoints = [], walks = [], cout = [], sdp_prob_txt = None\<rparr>
      | Inr (n, W, r) \<Rightarrow>
         (let c = get_direction E n;
              T = total_time (r_var r);
              s = sampling E n W r c T
          in \<lparr>returned = epilogue E r c T s, randPoints = l_randPoints s, walks = l_walks s,
              cout = l_cout s, sdp_prob_txt = Some (getLMI (r_SP r), c)\<rparr>))"

section \<open>The callees, as the specification describes them\<close>

text \<open>
  The headers that define the LMI evaluator, the boundary oracle, the preprocessor
  and the Boltzmann-HMC walk are not among the sources. This section writes them down
  from the specification (sections 4.1 to 4.5). What the specification leaves open is
  a field of \<open>prepare_parts\<close> or of \<open>walk_parts\<close>; the tolerance of the oracle is an
  argument.
\<close>

subsection \<open>LMI evaluator (4.1)\<close>

text \<open>Modelled from the spec: the sum of two matrices, entry by entry (Eigen's
  operator, not among the sources).\<close>

definition madd :: "MT \<Rightarrow> MT \<Rightarrow> MT" where
  "madd A B = map2 (map2 (+)) A B"

text \<open>Modelled from the spec: a scalar times a matrix (Eigen's operator, not among the
  sources).\<close>

definition smul :: "NT \<Rightarrow> MT \<Rightarrow> MT" where
  "smul a A = map (map ((*) a)) A"

text \<open>Modelled from the spec: \<open>evaluate(x)\<close> of the LMI evaluator in spectrahedron.h. It
  returns A0 + x1 A1 + ... + xn An and fails with DimensionMismatch if the length
  of x is not n.\<close>

definition evaluate :: "LMI \<Rightarrow> VT \<Rightarrow> error + MT" where
  "evaluate L x =
     (if length x \<noteq> length (getAi L) then Inl DimensionMismatch
      else Inr (foldl madd (getA0 L) (map2 smul x (getAi L))))"

text \<open>Modelled from the spec: the quadratic form v^T A v, by which definiteness of a
  symmetric matrix is read.\<close>

definition quadratic_form :: "MT \<Rightarrow> VT \<Rightarrow> NT" where
  "quadratic_form A v = sum_list (map2 (\<lambda>vi row. vi * sum_list (map2 (*) row v)) v A)"

text \<open>Modelled from the spec: a symmetric matrix is positive definite when its
  quadratic form is positive on every vector that is not zero.\<close>

definition positive_definite :: "MT \<Rightarrow> bool" where
  "positive_definite A \<longleftrightarrow>
     (\<forall>v. length v = length A \<and> (\<exists>vi \<in> set v. vi \<noteq> 0) \<longrightarrow> 0 < quadratic_form A v)"

text \<open>Modelled from the spec: a point is strictly feasible when A(x) can be evaluated
  and is positive definite.\<close>

definition strictly_feasible :: "LMI \<Rightarrow> VT \<Rightarrow> bool" where
  "strictly_feasible L x =
     (case evaluate L x of Inl e \<Rightarrow> False | Inr A \<Rightarrow> positive_definite A)"

text \<open>Modelled from the spec: the m by m zero matrix, the empty sum of coefficient
  matrices.\<close>

definition mzero :: "nat \<Rightarrow> MT" where
  "mzero m = replicate m (replicate m 0)"

text \<open>Modelled from the spec: \<open>derivative(d)\<close> of the LMI evaluator in spectrahedron.h. It
  returns d1 A1 + ... + dn An, which does not depend on a point, and fails with
  DimensionMismatch if the length of d is not n.\<close>

definition derivative :: "LMI \<Rightarrow> VT \<Rightarrow> error + MT" where
  "derivative L d =
     (if length d \<noteq> length (getAi L) then Inl DimensionMismatch
      else Inr (foldl madd (mzero (length (getA0 L))) (map2 smul d (getAi L))))"

text \<open>Modelled from the spec: an m by m matrix, m rows of m entries each.\<close>

definition square :: "nat \<Rightarrow> MT \<Rightarrow> bool" where
  "square m A \<longleftrightarrow> length A = m \<and> (\<forall>row \<in> set A. length row = m)"

text \<open>Modelled from the spec: a symmetric matrix.\<close>

definition symmetric :: "MT \<Rightarrow> bool" where
  "symmetric A \<longleftrightarrow> (\<forall>i < length A. \<forall>j < length A. A ! i ! j = A ! j ! i)"

text \<open>Modelled from the spec: what the evaluator checks once at construction, that the
  stored matrices A0, A1, ..., An are all m by m and symmetric, for one m that is not
  zero.\<close>

definition LMI_ok :: "LMI \<Rightarrow> bool" where
  "LMI_ok L \<longleftrightarrow>
     getA0 L \<noteq> [] \<and>
     (\<forall>A \<in> set (getA0 L # getAi L). square (length (getA0 L)) A \<and> symmetric A)"

text \<open>Modelled from the spec: the squared Euclidean norm of a vector.\<close>

definition norm_sq :: "VT \<Rightarrow> NT" where
  "norm_sq v = sum_list (map (\<lambda>x. x * x) v)"

text \<open>Modelled from the spec: the unit vectors of dimension m.\<close>

definition unit_vectors :: "nat \<Rightarrow> VT set" where
  "unit_vectors m = {v. length v = m \<and> norm_sq v = 1}"

text \<open>Modelled from the spec: the smallest eigenvalue of a symmetric matrix, taken as the
  least value of its quadratic form on the unit vectors (the eigen-solver of Eigen is
  not among the sources). It is not an executable definition: it is the quantity the
  specification's properties speak of, and on a matrix with one entry it is that
  entry.\<close>

definition smallest_eigenvalue :: "MT \<Rightarrow> NT" where
  "smallest_eigenvalue A = Inf (quadratic_form A ` unit_vectors (length A))"

text \<open>Modelled from the spec: the numerical policy of the oracle, "eigenvalues with
  magnitude below a small tolerance are treated as singular/boundary". A matrix is
  singular within the tolerance when its smallest eigenvalue is within the tolerance
  of zero. The tolerance is a parameter, as the design notes ask.\<close>

definition singular_within :: "NT \<Rightarrow> MT \<Rightarrow> bool" where
  "singular_within tol A \<longleftrightarrow> \<bar>smallest_eigenvalue A\<bar> \<le> tol"

text \<open>Modelled from the spec: A is positive semidefinite up to the tolerance, written
  "A >= -tolerance" there: no eigenvalue is below minus the tolerance.\<close>

definition psd_within :: "NT \<Rightarrow> MT \<Rightarrow> bool" where
  "psd_within tol A \<longleftrightarrow> - tol \<le> smallest_eigenvalue A"

subsection \<open>Boundary oracle (4.2)\<close>

text \<open>Modelled from the spec: what the boundary oracle answers, a time or the sentinel
  for "no crossing" (t = +infinity).\<close>

datatype exit_time = Finite NT | Unbounded

text \<open>Modelled from the spec: the point p + t d of the ray the oracle is queried
  along.\<close>

definition ray :: "Point \<Rightarrow> VT \<Rightarrow> NT \<Rightarrow> Point" where
  "ray p d t = map2 (\<lambda>x y. x + t * y) p d"

text \<open>Modelled from the spec: the positive roots of det(A(p) + s derivative(d)) = 0
  within numeric tolerance, for A = A(p) and D = derivative(d): the positive s at
  which the pencil A + s D is singular within the tolerance.\<close>

definition crossings :: "NT \<Rightarrow> MT \<Rightarrow> MT \<Rightarrow> NT set" where
  "crossings tol A D = {s. 0 < s \<and> singular_within tol (madd A (smul s D))}"

text \<open>Modelled from the spec: the boundary oracle of spectrahedron.h with its sentinel.
  It evaluates A(p) and derivative(d) (DimensionMismatch if either fails), and
  answers the smallest positive root within tolerance, or the sentinel if there is
  no positive root within tolerance. The roots within a tolerance fill intervals, so
  the smallest is their greatest lower bound.\<close>

definition first_exit :: "NT \<Rightarrow> LMI \<Rightarrow> Point \<Rightarrow> VT \<Rightarrow> error + exit_time" where
  "first_exit tol L p d =
     (case evaluate L p of
        Inl e \<Rightarrow> Inl e
      | Inr A \<Rightarrow>
         (case derivative L d of
            Inl e \<Rightarrow> Inl e
          | Inr D \<Rightarrow>
              Inr (if crossings tol A D = {} then Unbounded
                   else Finite (Inf (crossings tol A D)))))"

text \<open>Modelled from the spec: \<open>firstExit(p, d) -> t\<close> as its callers see it: a scalar, or
  the error UnboundedDirection of section 7 where the oracle finds no positive
  boundary crossing.\<close>

definition firstExit :: "NT \<Rightarrow> LMI \<Rightarrow> Point \<Rightarrow> VT \<Rightarrow> error + NT" where
  "firstExit tol L p d =
     (case first_exit tol L p d of
        Inl e \<Rightarrow> Inl e
      | Inr Unbounded \<Rightarrow> Inl UnboundedDirection
      | Inr (Finite t) \<Rightarrow> Inr t)"


subsection \<open>Preprocessor (4.3)\<close>

text \<open>Modelled from the spec: what \<open>prepare\<close> returns, (innerPoint, innerRadius,
  diameterEstimate, roundingTransform); rounding is optional.\<close>

record prepared =
  innerPoint :: Point
  innerRadius :: NT
  diameterEstimate :: NT
  roundingTransform :: "MT option"

text \<open>Modelled from the spec: step (1) of preprocessing, "locate an interior point via a
  feasibility search - if no strictly feasible point exists, fails with Infeasible".
  The search fails exactly when there is no strictly feasible point, and what it
  locates is strictly feasible. Which of the strictly feasible points it locates the
  specification does not say (maximising the minimum eigenvalue is given as an
  example), so nothing more is fixed here.\<close>

definition locate_interior :: "LMI \<Rightarrow> error + Point" where
  "locate_interior L =
     (if \<exists>x. strictly_feasible L x then Inr (SOME x. strictly_feasible L x)
      else Inl Infeasible)"

text \<open>Modelled from the spec: steps (2) to (4) of preprocessing, each left as the
  specification leaves it (an estimate by one of several methods, which may meet the
  oracle's sentinel, an optional transform, an estimate), and the way
  \<open>preproccess_spectrahedron\<close> stores the results in its eight reference arguments,
  which the specification does not say.\<close>

record prepare_parts =
  radius_estimate :: "LMI \<Rightarrow> Point \<Rightarrow> error + NT"
  rounding :: "LMI \<Rightarrow> Point \<Rightarrow> NT \<Rightarrow> MT option"
  diameter_estimate :: "LMI \<Rightarrow> Point \<Rightarrow> NT \<Rightarrow> MT option \<Rightarrow> NT"
  hand_back :: "prepared \<Rightarrow> prep_refs \<Rightarrow> prep_refs"

text \<open>Modelled from the spec: \<open>prepare(spectrahedron)\<close>, the body of the preprocessor in
  rounding.h. (1) locate an interior point by the feasibility search, failing with
  Infeasible if no strictly feasible point exists; (2) estimate the inscribed-ball
  radius at that point; (3) optionally compute a rounding transform; (4) derive the
  diameter estimate.\<close>

definition prepare :: "prepare_parts \<Rightarrow> Spectrahedron \<Rightarrow> error + prepared" where
  "prepare Q SP =
     (case locate_interior (getLMI SP) of
        Inl e \<Rightarrow> Inl e
      | Inr x \<Rightarrow>
         (case radius_estimate Q (getLMI SP) x of
            Inl e \<Rightarrow> Inl e
          | Inr rad \<Rightarrow>
             (let R = rounding Q (getLMI SP) x rad
              in Inr \<lparr>innerPoint = x, innerRadius = rad,
                      diameterEstimate = diameter_estimate Q (getLMI SP) x rad R,
                      roundingTransform = R\<rparr>)))"

text \<open>Modelled from the spec: \<open>preproccess_spectrahedron\<close> as line 73 calls it. It prepares
  the spectrahedron it is given and stores what came out.\<close>

definition preproccess_spectrahedron_spec :: "prepare_parts \<Rightarrow> prep_refs \<Rightarrow> error + prep_refs"
where
  "preproccess_spectrahedron_spec Q r =
     (case prepare Q (r_SP r) of Inl e \<Rightarrow> Inl e | Inr res \<Rightarrow> Inr (hand_back Q res r))"

subsection \<open>Boltzmann-HMC walk (4.4, 4.5)\<close>

text \<open>Modelled from the spec: the comparison "remaining time <= crossing time", the
  sentinel being later than every time.\<close>

definition no_later_than :: "NT \<Rightarrow> exit_time \<Rightarrow> bool" where
  "no_later_than r t = (case t of Finite \<tau> \<Rightarrow> r \<le> \<tau> | Unbounded \<Rightarrow> True)"

text \<open>Modelled from the spec: WalkState, the current point, the current direction (for
  this walk the velocity), the remaining time and the reflection count.\<close>

record WalkState =
  point :: Point
  direction :: VT
  remaining :: NT
  reflections :: nat

text \<open>Modelled from the spec: the parts of the walk in samplers.h and spectrahedron.h
  that the specification names without fixing them: the oracle variant for the curved
  trajectory (it is given the settings, so the first-step flag and epsilon), the
  reflection of the velocity at a boundary point, the size of the constant force
  along \<open>c\<close>, the draw of the initial velocity from the random stream, and the cutoff
  on the number of reflections.\<close>

record walk_parts =
  crossing_time ::
    "Spectrahedron \<Rightarrow> BoundaryOracleBoltzmannHMCSettings \<Rightarrow> Point \<Rightarrow> VT \<Rightarrow> Point \<Rightarrow> exit_time"
  reflected :: "Spectrahedron \<Rightarrow> Point \<Rightarrow> VT \<Rightarrow> VT"
  force_size :: NT
  initial_velocity :: "RNGType \<Rightarrow> nat \<Rightarrow> VT \<times> RNGType"
  max_reflections :: nat

text \<open>Modelled from the spec: the trajectory under a constant force along \<open>c\<close>, a
  parabola: the point reached after time t from p with velocity v.\<close>

definition position_after :: "NT \<Rightarrow> Point \<Rightarrow> VT \<Rightarrow> Point \<Rightarrow> NT \<Rightarrow> Point" where
  "position_after a p v c t =
     map2 (+) p (map2 (+) (map ((*) t) v) (map ((*) (a * t\<^sup>2 / 2)) c))"

text \<open>Modelled from the spec: the velocity after time t under the same force.\<close>

definition velocity_after :: "NT \<Rightarrow> VT \<Rightarrow> Point \<Rightarrow> NT \<Rightarrow> VT" where
  "velocity_after a v c t = map2 (+) v (map ((*) (a * t)) c)"

text \<open>Modelled from the spec: the transition Integrating to Done, "advance p by the
  remaining time and stop".\<close>

definition arrive :: "walk_parts \<Rightarrow> Point \<Rightarrow> WalkState \<Rightarrow> WalkState" where
  "arrive P c s =
     s\<lparr>point := position_after (force_size P) (point s) (direction s) c (remaining s),
       direction := velocity_after (force_size P) (direction s) c (remaining s),
       remaining := 0\<rparr>"

text \<open>
  Modelled from the spec: the state machine of the walk in samplers.h. In state
  Integrating the oracle is asked for the crossing time. If the remaining time is no
  later, the walk arrives and is Done. Otherwise it advances to the boundary point,
  takes the time travelled off the remaining time and is Reflecting: the velocity is
  reflected and the walk integrates again, unless the reflection count has reached
  the cutoff \<open>k\<close>, in which case the walk stops where it is (a degraded sample,
  recognisable by its remaining time). The first-step flag is cleared once the first
  sub-interval has been examined.
\<close>

fun integrate ::
  "walk_parts \<Rightarrow> Spectrahedron \<Rightarrow> Point \<Rightarrow> nat \<Rightarrow> WalkState \<Rightarrow> BoundaryOracleBoltzmannHMCSettings
     \<Rightarrow> WalkState \<times> BoundaryOracleBoltzmannHMCSettings"
where
  "integrate P SP c k s st =
     (case crossing_time P SP st (point s) (direction s) c of
        Unbounded \<Rightarrow> (arrive P c s, st\<lparr>first := False\<rparr>)
      | Finite t \<Rightarrow>
          if remaining s \<le> t then (arrive P c s, st\<lparr>first := False\<rparr>)
          else
            (let q = position_after (force_size P) (point s) (direction s) c t;
                 v = velocity_after (force_size P) (direction s) c t
             in case k of
                  0 \<Rightarrow> (s\<lparr>point := q, direction := v, remaining := remaining s - t\<rparr>,
                        st\<lparr>first := False\<rparr>)
                | Suc k' \<Rightarrow>
                    integrate P SP c k'
                      \<lparr>point = q, direction = reflected P SP q v, remaining = remaining s - t,
                       reflections = Suc (reflections s)\<rparr>
                      (st\<lparr>first := False\<rparr>)))"

text \<open>
  Modelled from the spec: one invocation of \<open>HMC_boltzmann_reflections\<close> (samplers.h)
  with a total time that has a value. The starting point and \<open>c\<close> must have one
  dimension (DimensionMismatch otherwise); the velocity is drawn from the generator
  carried by \<open>var\<close>; the walk runs for the total time T; the output is one point, with
  the generator and the settings as the walk left them.
\<close>

definition HMC_boltzmann_reflections_spec ::
  "walk_parts \<Rightarrow> Spectrahedron \<Rightarrow> Point \<Rightarrow> vars \<Rightarrow> Point \<Rightarrow> NT \<Rightarrow> BoundaryOracleBoltzmannHMCSettings
     \<Rightarrow> error + Point \<times> vars \<times> BoundaryOracleBoltzmannHMCSettings"
where
  "HMC_boltzmann_reflections_spec P SP p var c T st =
     (case initial_velocity P (rng var) (length p) of
        (v, g) \<Rightarrow>
          if length c \<noteq> length p \<or> length v \<noteq> length p then Inl DimensionMismatch
          else
            (case integrate P SP c (max_reflections P)
                    \<lparr>point = p, direction = v, remaining = T, reflections = 0\<rparr> st of
               (s, st') \<Rightarrow> Inr (point s, var\<lparr>rng := g\<rparr>, st')))"

section \<open>A concrete run\<close>

text \<open>
  Callees simple enough to follow by hand, for running the driver on concrete
  arguments: the generated spectrahedron is the fixed two-dimensional LMI with A0 the
  identity, preprocessing stores 1 as the diameter and the radius, the direction is
  the all-ones vector, and a walk adds \<open>c\<close> to the point and clears the first-step flag
  behind it, as a walk that has finished its first sub-interval does (the walk of the
  specification always does: \<open>walk_clears_first\<close> below). \<open>N2\<close> is 1 and \<open>Ratios\<close> is the
  empty matrix.
\<close>

definition example_SP :: Spectrahedron where
  "example_SP =
     \<lparr>getLMI = \<lparr>getA0 = [[1, 0], [0, 1]], getAi = [[[1, 0], [0, 0]], [[0, 0], [0, 1]]]\<rparr>\<rparr>"

definition example_walk ::
  "Spectrahedron \<Rightarrow> Point \<Rightarrow> NT_local \<Rightarrow> vars \<Rightarrow> Point \<Rightarrow> NT_local
     \<Rightarrow> BoundaryOracleBoltzmannHMCSettings
     \<Rightarrow> error + Point \<times> vars \<times> BoundaryOracleBoltzmannHMCSettings"
where
  "example_walk SP p diam var c T st = Inr (map2 (+) p c, var, st\<lparr>first := False\<rparr>)"

definition example_preprocess :: "prep_refs \<Rightarrow> error + prep_refs" where
  "example_preprocess r =
     Inr (r\<lparr>r_var := (r_var r)\<lparr>diameter := Some 1\<rparr>, r_diam_spec := Some 1, r_rad := Some 1\<rparr>)"

definition example_externals :: externals where
  "example_externals =
     \<lparr>clock_seed = 0,
      generateSDP2 = (\<lambda>n m. Inr example_SP),
      new_Point = (\<lambda>n. replicate (unat n) 0),
      preproccess_spectrahedron = example_preprocess,
      get_direction = (\<lambda>n. replicate (unat n) 1),
      HMC_boltzmann_reflections = example_walk,
      hit_and_run_Boltzmann_spec = (\<lambda>p SP var c T. Inr (p, var)),
      N2 = Some 1,
      Ratios = []\<rparr>"

text \<open>The run used below: \<open>nn = 2\<close>, \<open>mm = 2\<close>, \<open>walk_length = 1\<close>, the other three
  arguments left at \<open>NULL\<close>.\<close>

definition example_run :: run where
  "example_run = opti_exp example_externals (Some 2) (Some 2) None None (Some 1) None"

text \<open>A spectrahedron with no strictly feasible point, A(x) = -1 for every x, and the
  steps (2) to (4) of a preprocessor that stores 1 as the radius and as the diameter,
  as \<open>example_preprocess\<close> does.\<close>

definition infeasible_SP :: Spectrahedron where
  "infeasible_SP = \<lparr>getLMI = \<lparr>getA0 = [[- 1]], getAi = [[[0]]]\<rparr>\<rparr>"

definition example_parts :: prepare_parts where
  "example_parts =
     \<lparr>radius_estimate = (\<lambda>L x. Inr 1),
      rounding = (\<lambda>L x rad. None),
      diameter_estimate = (\<lambda>L x rad R. 1),
      hand_back = (\<lambda>res r. r\<lparr>r_var := (r_var r)\<lparr>diameter := Some (diameterEstimate res)\<rparr>,
                              r_diam_spec := Some (diameterEstimate res),
                              r_rad := Some (innerRadius res)\<rparr>)\<rparr>"

text \<open>The callees of the concrete run with preprocessing as the specification
  describes it, once on the spectrahedron of the concrete run and once on the one
  with no strictly feasible point.\<close>

definition prepared_externals :: externals where
  "prepared_externals =
     example_externals\<lparr>preproccess_spectrahedron := preproccess_spectrahedron_spec example_parts\<rparr>"

definition infeasible_externals :: externals where
  "infeasible_externals =
     example_externals
       \<lparr>generateSDP2 := (\<lambda>n m. Inr infeasible_SP),
        preproccess_spectrahedron := preproccess_spectrahedron_spec example_parts\<rparr>"

text \<open>Three LMIs with matrices of one entry. A(x) = 1 for every x: the coefficient
  matrix is zero and the feasible region is the whole line. A(x) = 1 - x: the
  feasible region is the half-line up to 1. A(x, y) = 1 - x: the coefficient matrix
  of the second coordinate is zero.\<close>

definition flat_LMI :: LMI where
  "flat_LMI = \<lparr>getA0 = [[1]], getAi = [[[0]]]\<rparr>"

definition halfline_LMI :: LMI where
  "halfline_LMI = \<lparr>getA0 = [[1]], getAi = [[[- 1]]]\<rparr>"




text \<open>Parts of a walk that meets the boundary after one unit of time and turns
  round there.\<close>

definition bouncing :: walk_parts where
  "bouncing =
     \<lparr>crossing_time = (\<lambda>SP st p v c. Finite 1),
      reflected = (\<lambda>SP q v. map uminus v),
      force_size = - 1,
      initial_velocity = (\<lambda>g k. (replicate k 1, g\<lparr>rng_drawn := rng_drawn g + k\<rparr>)),
      max_reflections = 3\<rparr>"

section \<open>Reading the list of walk invocations\<close>

text \<open>The settings as an invocation left them, if it came back at all.\<close>

definition settings_left :: "walk_call \<Rightarrow> BoundaryOracleBoltzmannHMCSettings option" where
  "settings_left w = (case came_back w of Inl e \<Rightarrow> None | Inr (p, var, st) \<Rightarrow> Some st)"

text \<open>What the loops keep true of their locals: every invocation but the first started
  with the settings its predecessor left, the first started with the settings of
  lines 77-79, and while no exception is in flight \<open>settings2\<close> is what the last
  invocation left.\<close>

definition threaded :: "locals \<Rightarrow> bool" where
  "threaded s \<longleftrightarrow>
     (\<forall>i. Suc i < length (l_walks s) \<longrightarrow>
          settings_left (l_walks s ! i) = Some (arg_settings (l_walks s ! Suc i))) \<and>
     (l_walks s \<noteq> [] \<longrightarrow> arg_settings (hd (l_walks s)) = settings2_constructed) \<and>
     (l_thrown s = None \<longrightarrow>
        (if l_walks s = [] then l_settings2 s = settings2_constructed
         else settings_left (last (l_walks s)) = Some (l_settings2 s)))"


section \<open>Quadratic forms\<close>

text \<open>The bilinear form u^T A w, of which the quadratic form is the diagonal. The
  quadratic form of A0 + x1 A1 + ... + xn An is taken apart through it.\<close>

definition bilinear_form :: "VT \<Rightarrow> MT \<Rightarrow> VT \<Rightarrow> NT" where
  "bilinear_form u A w = sum_list (map2 (\<lambda>ui row. ui * sum_list (map2 (*) row w)) u A)"

section \<open>Properties of the driver\<close>

subsection \<open>Loops\<close>

lemma funpow_preserves: "(\<And>s. P s \<Longrightarrow> P (f s)) \<Longrightarrow> P s \<Longrightarrow> P ((f ^^ k) s)"
  by (induction k) auto

lemma funpow_unfold:
  "(f ^^ 5) s = f (f (f (f (f s))))"
  "(f ^^ 2) s = f (f s)"
  "(f ^^ 1) s = f s"
  by (simp_all add: numeral_eq_Suc funpow_swap1)

subsection \<open>The time every walk is given\<close>

lemma HMC_step_walks_T:
  assumes "\<forall>w \<in> set (l_walks s). arg_T w = T"
  shows "\<forall>w \<in> set (l_walks (HMC_step E SP diam c T s)). arg_T w = T"
  using assms by (auto simp: HMC_step_def Let_def split: option.splits sum.splits prod.splits)

lemma sample_step_walks_T:
  assumes "\<forall>w \<in> set (l_walks s). arg_T w = T"
  shows "\<forall>w \<in> set (l_walks (sample_step E SP diam c T W s)). arg_T w = T"
proof -
  have "\<forall>w \<in> set (l_walks ((HMC_step E SP diam c T ^^ unat W) s)). arg_T w = T"
    by (rule funpow_preserves [where P = "\<lambda>s. \<forall>w \<in> set (l_walks s). arg_T w = T"])
       (use assms HMC_step_walks_T in blast)+
  then show ?thesis
    by (auto simp: sample_step_def Let_def split: option.splits)
qed

lemma batch_step_walks_T:
  assumes "\<forall>w \<in> set (l_walks s). arg_T w = T"
  shows "\<forall>w \<in> set (l_walks (batch_step E SP diam c T W s)). arg_T w = T"
proof -
  have "\<forall>w \<in> set (l_walks ((sample_step E SP diam c T W ^^ k) s)). arg_T w = T" for k
    by (rule funpow_preserves [where P = "\<lambda>s. \<forall>w \<in> set (l_walks s). arg_T w = T"])
       (use assms sample_step_walks_T in blast)+
  then show ?thesis using assms
    by (auto simp: batch_step_def Let_def split: option.splits sum.splits)
qed

lemma sampling_walks_T:
  "\<forall>w \<in> set (l_walks (sampling E n W r c T)). arg_T w = T"
  unfolding sampling_def
  by (rule funpow_preserves [where P = "\<lambda>s. \<forall>w \<in> set (l_walks s). arg_T w = T"])
     (use batch_step_walks_T in \<open>auto simp: locals_at_start_def\<close>)

subsection \<open>The settings every walk is given\<close>

lemma nth_snoc_link:
  assumes chain: "\<forall>i. Suc i < length ws \<longrightarrow> f (ws ! i) = Some (g (ws ! Suc i))"
      and link: "ws \<noteq> [] \<Longrightarrow> f (last ws) = Some (g w)"
  shows "\<forall>i. Suc i < length (ws @ [w]) \<longrightarrow> f ((ws @ [w]) ! i) = Some (g ((ws @ [w]) ! Suc i))"
proof (intro allI impI)
  fix i assume i: "Suc i < length (ws @ [w])"
  show "f ((ws @ [w]) ! i) = Some (g ((ws @ [w]) ! Suc i))"
  proof (cases "Suc i < length ws")
    case True
    then show ?thesis using chain by (simp add: nth_append)
  next
    case False
    with i have eq: "Suc i = length ws" by simp
    then have ne: "ws \<noteq> []" by auto
    have "i = length ws - 1" using eq by arith
    then have "ws ! i = last ws" using ne by (simp add: last_conv_nth)
    then show ?thesis using eq link [OF ne] by (simp add: nth_append)
  qed
qed

lemma HMC_step_threaded:
  assumes "threaded s"
  shows "threaded (HMC_step E SP diam c T s)"
proof (cases "l_thrown s")
  case (Some e)
  then show ?thesis using assms by (simp add: HMC_step_def)
next
  case None
  define res where
    "res = HMC_boltzmann_reflections E SP (l_p s) diam (l_var s) c T (l_settings2 s)"
  define w where
    "w = \<lparr>arg_SP = SP, arg_p = l_p s, arg_diam = diam, arg_var = l_var s, arg_c = c,
          arg_T = T, arg_settings = l_settings2 s, came_back = res\<rparr>"
  have link: "l_walks s \<noteq> [] \<Longrightarrow> settings_left (last (l_walks s)) = Some (arg_settings w)"
    using assms None by (simp add: threaded_def w_def)
  have chain: "\<forall>i. Suc i < length (l_walks s @ [w]) \<longrightarrow>
         settings_left ((l_walks s @ [w]) ! i) = Some (arg_settings ((l_walks s @ [w]) ! Suc i))"
    using assms link by (intro nth_snoc_link) (auto simp: threaded_def)
  have head: "arg_settings (hd (l_walks s @ [w])) = settings2_constructed"
    using assms None by (cases "l_walks s") (auto simp: threaded_def w_def)
  show ?thesis
  proof (cases res)
    case (Inl e)
    then have "HMC_step E SP diam c T s = s\<lparr>l_walks := l_walks s @ [w], l_thrown := Some e\<rparr>"
      using None by (simp add: HMC_step_def Let_def res_def w_def)
    then show ?thesis using chain head by (simp add: threaded_def)
  next
    case (Inr t)
    obtain p' var' st' where t: "t = (p', var', st')" by (cases t) auto
    have "HMC_step E SP diam c T s =
            s\<lparr>l_p := p', l_var := var', l_settings2 := st', l_walks := l_walks s @ [w]\<rparr>"
      using None Inr t by (simp add: HMC_step_def Let_def res_def w_def)
    moreover have "settings_left w = Some st'"
      using Inr t by (simp add: settings_left_def w_def)
    ultimately show ?thesis using chain head by (simp add: threaded_def)
  qed
qed

lemma threaded_other_fields:
  "threaded s \<Longrightarrow> threaded (s\<lparr>l_randPoints := x\<rparr>)"
  "threaded s \<Longrightarrow> threaded (s\<lparr>l_cout := y\<rparr>)"
  "threaded s \<Longrightarrow> threaded (s\<lparr>l_thrown := Some e\<rparr>)"
  by (simp_all add: threaded_def)

lemma sample_step_threaded:
  assumes "threaded s"
  shows "threaded (sample_step E SP diam c T W s)"
proof -
  have "threaded ((HMC_step E SP diam c T ^^ unat W) s)"
    by (rule funpow_preserves [where P = threaded]) (use assms HMC_step_threaded in blast)+
  then show ?thesis
    by (auto simp: sample_step_def Let_def threaded_other_fields split: option.splits)
qed

lemma batch_step_threaded:
  assumes "threaded s"
  shows "threaded (batch_step E SP diam c T W s)"
proof -
  have "threaded ((sample_step E SP diam c T W ^^ k) s)" for k
    by (rule funpow_preserves [where P = threaded]) (use assms sample_step_threaded in blast)+
  then show ?thesis using assms
    by (auto simp: batch_step_def Let_def threaded_other_fields split: option.splits sum.splits)
qed

lemma sampling_threaded: "threaded (sampling E n W r c T)"
  unfolding sampling_def
  by (rule funpow_preserves [where P = threaded])
     (use batch_step_threaded in \<open>auto simp: locals_at_start_def threaded_def\<close>)

subsection \<open>The concrete run, step by step\<close>

lemma example_fields:
  "clock_seed example_externals = 0"
  "generateSDP2 example_externals = (\<lambda>n m. Inr example_SP)"
  "new_Point example_externals = (\<lambda>n. replicate (unat n) 0)"
  "preproccess_spectrahedron example_externals = example_preprocess"
  "get_direction example_externals = (\<lambda>n. replicate (unat n) 1)"
  "HMC_boltzmann_reflections example_externals = example_walk"
  "hit_and_run_Boltzmann_spec example_externals = (\<lambda>p SP var c T. Inr (p, var))"
  "N2 example_externals = Some 1"
  "Ratios example_externals = []"
  by (simp_all add: example_externals_def)

lemma replicate_2: "replicate 2 x = [x, x]"
  by (simp add: numeral_2_eq_2)

lemma example_prologue:
  "prologue example_externals (Some 2) (Some 2) (Some 1) =
     Inr (2, 1, \<lparr>r_SP = example_SP, r_p = [0, 0], r_var = var_constructed example_externals 2,
                r_settings = \<lparr>LMIatP = [[1, 0], [0, 1]]\<rparr>, r_round_value = Some 1,
                r_diam_spec = None, r_rad = None, r_round = False\<rparr>)"
  by (simp add: prologue_def Rcpp_as_def example_fields example_SP_def replicate_2
      diam_spec_declared_def rad_declared_def)

lemma example_preprocessed:
  "preprocessed example_externals (Some 2) (Some 2) (Some 1) =
     Inr (2, 1, \<lparr>r_SP = example_SP, r_p = [0, 0],
                r_var = (var_constructed example_externals 2)\<lparr>diameter := Some 1\<rparr>,
                r_settings = \<lparr>LMIatP = [[1, 0], [0, 1]]\<rparr>, r_round_value = Some 1,
                r_diam_spec = Some 1, r_rad = Some 1, r_round = False\<rparr>)"
  by (simp add: preprocessed_def example_prologue example_fields example_preprocess_def)

lemma example_HMC_step:
  "l_thrown s = None \<Longrightarrow>
   HMC_step example_externals SP diam c T s =
     s\<lparr>l_p := map2 (+) (l_p s) c, l_settings2 := (l_settings2 s)\<lparr>first := False\<rparr>,
       l_walks := l_walks s @
         [\<lparr>arg_SP = SP, arg_p = l_p s, arg_diam = diam, arg_var = l_var s, arg_c = c, arg_T = T,
           arg_settings = l_settings2 s,
           came_back = Inr (map2 (+) (l_p s) c, l_var s, (l_settings2 s)\<lparr>first := False\<rparr>)\<rparr>]\<rparr>"
  by (simp add: HMC_step_def example_fields example_walk_def)

lemma example_sample_step:
  "l_thrown s = None \<Longrightarrow>
   sample_step example_externals SP diam c T 1 s =
     s\<lparr>l_p := map2 (+) (l_p s) c, l_settings2 := (l_settings2 s)\<lparr>first := False\<rparr>,
       l_randPoints := l_randPoints s @ [map2 (+) (l_p s) c],
       l_walks := l_walks s @
         [\<lparr>arg_SP = SP, arg_p = l_p s, arg_diam = diam, arg_var = l_var s, arg_c = c, arg_T = T,
           arg_settings = l_settings2 s,
           came_back = Inr (map2 (+) (l_p s) c, l_var s, (l_settings2 s)\<lparr>first := False\<rparr>)\<rparr>]\<rparr>"
  by (simp add: sample_step_def example_HMC_step)

lemma example_batch_step:
  "l_thrown s = None \<Longrightarrow>
   batch_step example_externals SP diam c T 1 s =
     s\<lparr>l_p := map2 (+) (l_p s) c, l_settings2 := (l_settings2 s)\<lparr>first := False\<rparr>,
       l_randPoints := l_randPoints s @ [map2 (+) (l_p s) c],
       l_walks := l_walks s @
         [\<lparr>arg_SP = SP, arg_p = l_p s, arg_diam = diam, arg_var = l_var s, arg_c = c, arg_T = T,
           arg_settings = l_settings2 s,
           came_back = Inr (map2 (+) (l_p s) c, l_var s, (l_settings2 s)\<lparr>first := False\<rparr>)\<rparr>],
       l_cout := l_cout s @ [''HMC points sampled..'']\<rparr>"
  by (simp add: batch_step_def example_sample_step example_fields Rcpp_as_def)

lemmas example_run_simps =
  example_run_def opti_exp_def example_preprocessed sampling_def example_batch_step
  locals_at_start_def settings2_constructed_def example_fields funpow_unfold replicate_2
  epilogue_def total_time_def Let_def

lemma example_run_walks:
  "length (walks example_run) = 5"
  "map arg_T (walks example_run) = [Some 2, Some 2, Some 2, Some 2, Some 2]"
  "map (first \<circ> arg_settings) (walks example_run) = [True, False, False, False, False]"
  by (simp_all add: example_run_simps)

lemma example_run_randPoints:
  "randPoints example_run = [[1, 1], [2, 2], [3, 3], [4, 4], [5, 5]]"
  by (simp add: example_run_simps)

lemma example_run_returned: "returned example_run = Inr []"
  by (simp add: example_run_simps)

lemma returned_is_Ratios:
  "returned (opti_exp E nn mm N M walk_length walk_type) = Inr X \<Longrightarrow> X = Ratios E"
  by (auto simp: opti_exp_def epilogue_def Let_def split: sum.splits option.splits prod.splits)

section \<open>Properties of the callees as specified\<close>

declare integrate.simps [simp del]

lemma position_after_0:
  "length v = length p \<Longrightarrow> length c = length p \<Longrightarrow> position_after a p v c 0 = p"
  by (simp add: position_after_def list_eq_iff_nth_eq)

lemma integrate_no_time:
  assumes "remaining s = 0"
      and "no_later_than 0 (crossing_time P SP st (point s) (direction s) c)"
  shows "integrate P SP c k s st = (arrive P c s, st\<lparr>first := False\<rparr>)"
  using assms
  by (subst integrate.simps) (auto simp: no_later_than_def split: exit_time.splits)

lemma arrive_no_time:
  assumes "remaining s = 0" and "length (direction s) = length (point s)"
      and "length c = length (point s)"
  shows "point (arrive P c s) = point s"
  using assms by (simp add: arrive_def position_after_0)

text \<open>However a walk as specified ends, it leaves the first-step flag cleared.\<close>

lemma integrate_clears_first: "\<not> first (snd (integrate P SP c k s st))"
proof (induction k arbitrary: s st)
  case 0
  show ?case
    by (subst integrate.simps) (simp add: Let_def split: exit_time.splits)
next
  case (Suc k)
  show ?case
    by (subst integrate.simps) (simp add: Let_def Suc.IH split: exit_time.splits)
qed

lemma walk_clears_first:
  "HMC_boltzmann_reflections_spec P SP p var c T st = Inr (p', var', st') \<Longrightarrow> \<not> first st'"
  by (auto simp: HMC_boltzmann_reflections_spec_def split: prod.splits if_splits)
     (metis integrate_clears_first snd_conv)

subsection \<open>The feasibility search\<close>

lemma locate_interior_fails:
  "locate_interior L = Inl e \<longleftrightarrow> e = Infeasible \<and> (\<nexists>x. strictly_feasible L x)"
  by (auto simp: locate_interior_def)

lemma locate_interior_finds:
  "locate_interior L = Inr x \<Longrightarrow> strictly_feasible L x"
  by (auto simp: locate_interior_def intro: someI_ex split: if_splits)

lemma prepare_inner_point:
  "prepare Q SP = Inr res \<Longrightarrow> strictly_feasible (getLMI SP) (innerPoint res)"
  by (auto simp: prepare_def Let_def locate_interior_finds split: sum.splits)

lemma prepare_no_interior:
  "\<nexists>x. strictly_feasible (getLMI SP) x \<Longrightarrow> prepare Q SP = Inl Infeasible"
  by (simp add: prepare_def locate_interior_def)

lemma example_SP_interior: "strictly_feasible (getLMI example_SP) [0, 0]"
proof -
  have "evaluate (getLMI example_SP) [0, 0] = Inr [[1, 0], [0, 1]]"
    by (simp add: evaluate_def example_SP_def madd_def smul_def)
  moreover have "positive_definite [[1, 0], [0, 1]]"
    unfolding positive_definite_def
  proof (intro allI impI)
    fix v :: VT assume v: "length v = length [[1, 0], [0, 1 :: NT]] \<and> (\<exists>vi \<in> set v. vi \<noteq> 0)"
    then obtain a b where ab: "v = [a, b]"
      by (cases v; cases "tl v") auto
    then have "a \<noteq> 0 \<or> b \<noteq> 0" using v by auto
    then have "0 < a * a + b * b"
      by (metis add.commute not_sum_squares_lt_zero sum_squares_eq_zero_iff
          less_eq_real_def linorder_not_le)
    then show "0 < quadratic_form [[1, 0], [0, 1]] v"
      by (simp add: quadratic_form_def ab)
  qed
  ultimately show ?thesis by (simp add: strictly_feasible_def)
qed

lemma example_parts_preprocess:
  assumes "r_SP r = example_SP"
  shows "preproccess_spectrahedron_spec example_parts r = example_preprocess r"
proof -
  have "\<exists>x. strictly_feasible (getLMI example_SP) x"
    using example_SP_interior by blast
  then show ?thesis
    by (simp add: preproccess_spectrahedron_spec_def prepare_def locate_interior_def assms
        example_parts_def example_preprocess_def)
qed

lemma prologue_whatever_callee:
  "prologue (E\<lparr>preproccess_spectrahedron := f\<rparr>) nn mm wl = prologue E nn mm wl"
  "prologue (E\<lparr>HMC_boltzmann_reflections := g\<rparr>) nn mm wl = prologue E nn mm wl"
  by (simp_all add: prologue_def var_constructed_def cong: sum.case_cong)

lemma sampling_whatever_preprocessing:
  "sampling (E\<lparr>preproccess_spectrahedron := f\<rparr>) n W r c T = sampling E n W r c T"
proof -
  have H: "HMC_step (E\<lparr>preproccess_spectrahedron := f\<rparr>) = HMC_step E"
    by (simp add: fun_eq_iff HMC_step_def cong: option.case_cong)
  have S: "sample_step (E\<lparr>preproccess_spectrahedron := f\<rparr>) = sample_step E"
    by (simp add: fun_eq_iff sample_step_def H)
  have B: "batch_step (E\<lparr>preproccess_spectrahedron := f\<rparr>) = batch_step E"
    by (simp add: fun_eq_iff batch_step_def S Let_def cong: option.case_cong sum.case_cong)
  show ?thesis
    by (simp add: sampling_def B locals_at_start_def)
qed

lemma prepared_prologue:
  "prologue prepared_externals (Some 2) (Some 2) (Some 1) =
     Inr (2, 1, \<lparr>r_SP = example_SP, r_p = [0, 0], r_var = var_constructed example_externals 2,
                r_settings = \<lparr>LMIatP = [[1, 0], [0, 1]]\<rparr>, r_round_value = Some 1,
                r_diam_spec = None, r_rad = None, r_round = False\<rparr>)"
  by (simp add: prepared_externals_def prologue_whatever_callee example_prologue)

lemma prepared_run_walks:
  "walks (opti_exp prepared_externals (Some 2) (Some 2) None None (Some 1) None)
     = walks example_run"
proof -
  have "preproccess_spectrahedron prepared_externals r = example_preprocess r"
    if "r_SP r = example_SP" for r
    using that by (simp add: prepared_externals_def example_parts_preprocess)
  then have eq: "preprocessed prepared_externals (Some 2) (Some 2) (Some 1)
                   = preprocessed example_externals (Some 2) (Some 2) (Some 1)"
    by (simp add: preprocessed_def prepared_prologue example_prologue example_fields)
  show ?thesis
    unfolding example_run_def opti_exp_def eq
    by (simp add: example_preprocessed prepared_externals_def sampling_whatever_preprocessing
        Let_def)
qed

lemma infeasible_SP_has_no_interior: "\<not> strictly_feasible (getLMI infeasible_SP) x"
proof
  assume sf: "strictly_feasible (getLMI infeasible_SP) x"
  then have len: "length x = 1"
    by (auto simp: strictly_feasible_def evaluate_def infeasible_SP_def split: if_splits)
  then obtain a where x: "x = [a]"
    by (cases x) auto
  have "evaluate (getLMI infeasible_SP) x = Inr [[- 1]]"
    by (simp add: evaluate_def infeasible_SP_def x madd_def smul_def)
  then have "positive_definite [[- 1]]"
    using sf by (simp add: strictly_feasible_def)
  then have "0 < quadratic_form [[- 1]] [1]"
    by (simp add: positive_definite_def)
  then show False
    by (simp add: quadratic_form_def)
qed

lemma infeasible_prologue:
  "prologue infeasible_externals (Some 1) (Some 1) (Some 1) =
     Inr (1, 1, \<lparr>r_SP = infeasible_SP, r_p = [0], r_var = var_constructed infeasible_externals 1,
                r_settings = \<lparr>LMIatP = [[- 1]]\<rparr>, r_round_value = Some 1,
                r_diam_spec = None, r_rad = None, r_round = False\<rparr>)"
  by (simp add: prologue_def Rcpp_as_def infeasible_externals_def example_fields
      infeasible_SP_def diam_spec_declared_def rad_declared_def)

section \<open>Properties of the quadratic form\<close>

subsection \<open>Sums and multiples\<close>

lemma quadratic_form_bilinear: "quadratic_form A v = bilinear_form v A v"
  by (simp add: quadratic_form_def bilinear_form_def)

lemma row_smul: "sum_list (map2 (*) (map ((*) c) row) v) = c * sum_list (map2 (*) row v)"
  for c :: real
proof (induction row arbitrary: v)
  case Nil then show ?case by simp
next
  case (Cons a row)
  then show ?case by (cases v) (simp_all add: algebra_simps)
qed

lemma row_smul': "sum_list (map2 (*) (map (\<lambda>a. a * c) row) v) = c * sum_list (map2 (*) row v)"
  for c :: real
proof -
  have "(\<lambda>a. a * c) = (*) c" by (auto simp: mult.commute)
  then show ?thesis by (simp only: row_smul)
qed

lemma row_add:
  "length r1 = length r2 \<Longrightarrow>
   sum_list (map2 (*) (map2 (+) r1 r2) v) = sum_list (map2 (*) r1 v) + sum_list (map2 (*) r2 v)"
  for v :: "real list"
proof (induction r1 r2 arbitrary: v rule: list_induct2)
  case Nil then show ?case by simp
next
  case (Cons x xs y ys)
  then show ?case by (cases v) (simp_all add: algebra_simps)
qed

lemma row_zero: "sum_list (map2 (*) (replicate m 0) v) = 0" for v :: "real list"
proof (induction m arbitrary: v)
  case 0 then show ?case by simp
next
  case (Suc m)
  then show ?case by (cases v) simp_all
qed

lemma bilinear_smul: "bilinear_form u (smul c A) w = c * bilinear_form u A w"
  unfolding bilinear_form_def smul_def
proof (induction A arbitrary: u)
  case Nil then show ?case by simp
next
  case (Cons r A)
  then show ?case by (cases u) (simp_all add: row_smul row_smul' algebra_simps)
qed

lemma bilinear_madd:
  "list_all2 (\<lambda>r1 r2. length r1 = length r2) A B \<Longrightarrow>
   bilinear_form u (madd A B) w = bilinear_form u A w + bilinear_form u B w"
  unfolding bilinear_form_def madd_def
proof (induction A B arbitrary: u rule: list_all2_induct)
  case Nil then show ?case by simp
next
  case (Cons r1 A r2 B)
  then show ?case by (cases u) (simp_all add: row_add algebra_simps)
qed

lemma bilinear_mzero: "bilinear_form u (replicate k (replicate m 0)) w = 0"
  unfolding bilinear_form_def
proof (induction k arbitrary: u)
  case 0 then show ?case by simp
next
  case (Suc k)
  then show ?case by (cases u) (simp_all add: row_zero)
qed

subsection \<open>Shapes\<close>

lemma square_same_rows:
  "square m A \<Longrightarrow> square m B \<Longrightarrow> list_all2 (\<lambda>r1 r2. length r1 = length r2) A B"
  by (auto simp: square_def list_all2_conv_all_nth)

lemma square_madd: "square m A \<Longrightarrow> square m B \<Longrightarrow> square m (madd A B)"
  by (auto simp: square_def madd_def set_zip)

lemma square_smul: "square m A \<Longrightarrow> square m (smul c A)"
  by (auto simp: square_def smul_def)

lemma square_mzero: "square m (mzero m)"
  by (auto simp: square_def mzero_def)

lemma square_foldl:
  "square m B \<Longrightarrow> (\<forall>M \<in> set Ms. square m M) \<Longrightarrow> square m (foldl madd B Ms)"
  by (induction Ms arbitrary: B) (auto simp: square_madd)

lemma bilinear_foldl:
  "square m B \<Longrightarrow> (\<forall>M \<in> set Ms. square m M) \<Longrightarrow>
   bilinear_form u (foldl madd B Ms) w = bilinear_form u B w + sum_list (map (\<lambda>M. bilinear_form u M w) Ms)"
proof (induction Ms arbitrary: B)
  case Nil then show ?case by simp
next
  case (Cons M Ms)
  have "square m (madd B M)" using Cons.prems by (simp add: square_madd)
  then show ?case
    using Cons by (simp add: bilinear_madd square_same_rows algebra_simps)
qed

lemma sum_map2_smul:
  "sum_list (map (\<lambda>M. bilinear_form u M w) (map2 smul x As))
     = sum_list (map2 (\<lambda>xi Ai. xi * bilinear_form u Ai w) x As)"
proof (induction As arbitrary: x)
  case Nil then show ?case by simp
next
  case (Cons A As)
  then show ?case by (cases x) (simp_all add: bilinear_smul)
qed

lemma set_map2_smul_square:
  "(\<forall>A \<in> set As. square m A) \<Longrightarrow> \<forall>M \<in> set (map2 smul x As). square m M"
  by (auto simp: set_zip square_smul)

lemma bilinear_evaluate:
  assumes "square m (getA0 L)" "\<forall>A \<in> set (getAi L). square m A" "evaluate L x = Inr A"
  shows "bilinear_form u A w
           = bilinear_form u (getA0 L) w
             + sum_list (map2 (\<lambda>xi Ai. xi * bilinear_form u Ai w) x (getAi L))"
    and "square m A"
proof -
  have A: "A = foldl madd (getA0 L) (map2 smul x (getAi L))"
    using assms(3) by (auto simp: evaluate_def split: if_splits)
  show "square m A"
    unfolding A using assms(1,2) by (intro square_foldl set_map2_smul_square)
  have "bilinear_form u A w
          = bilinear_form u (getA0 L) w
            + sum_list (map (\<lambda>M. bilinear_form u M w) (map2 smul x (getAi L)))"
    unfolding A using assms(1,2) by (intro bilinear_foldl set_map2_smul_square)
  then show "bilinear_form u A w
           = bilinear_form u (getA0 L) w
             + sum_list (map2 (\<lambda>xi Ai. xi * bilinear_form u Ai w) x (getAi L))"
    by (simp only: sum_map2_smul)
qed

lemma bilinear_derivative:
  assumes "\<forall>A \<in> set (getAi L). square m A" "derivative L d = Inr D" "m = length (getA0 L)"
  shows "bilinear_form u D w = sum_list (map2 (\<lambda>xi Ai. xi * bilinear_form u Ai w) d (getAi L))"
    and "square m D"
proof -
  have D: "D = foldl madd (mzero m) (map2 smul d (getAi L))"
    using assms(2,3) by (auto simp: derivative_def split: if_splits)
  show "square m D"
    unfolding D by (rule square_foldl [OF square_mzero set_map2_smul_square [OF assms(1)]])
  have "bilinear_form u D w
          = bilinear_form u (mzero m) w
            + sum_list (map (\<lambda>M. bilinear_form u M w) (map2 smul d (getAi L)))"
    unfolding D by (rule bilinear_foldl [OF square_mzero set_map2_smul_square [OF assms(1)]])
  then show "bilinear_form u D w
               = sum_list (map2 (\<lambda>xi Ai. xi * bilinear_form u Ai w) d (getAi L))"
    by (simp only: sum_map2_smul) (simp add: mzero_def bilinear_mzero)
qed

lemma sum_along_ray:
  "length p = length As \<Longrightarrow> length d = length As \<Longrightarrow>
   sum_list (map2 (\<lambda>xi Ai. xi * f Ai) (ray p d s) As)
     = sum_list (map2 (\<lambda>xi Ai. xi * f Ai) p As) + s * sum_list (map2 (\<lambda>xi Ai. xi * f Ai) d As)"
  for f :: "'a \<Rightarrow> real"
  unfolding ray_def
proof (induction p As arbitrary: d rule: list_induct2)
  case Nil then show ?case by simp
next
  case (Cons x xs A As)
  then show ?case by (cases d) (simp_all add: algebra_simps)
qed

subsection \<open>Bounds on unit vectors\<close>

lemma entry_le_norm_sq: "x \<in> set v \<Longrightarrow> x * x \<le> norm_sq v"
  unfolding norm_sq_def
proof (induction v)
  case Nil then show ?case by simp
next
  case (Cons a v)
  have nn: "0 \<le> sum_list (map (\<lambda>x. x * x) v)"
    by (rule sum_list_nonneg) auto
  have "0 \<le> a * a" by simp
  show ?case
  proof (cases "x = a")
    case True then show ?thesis using nn by simp
  next
    case False
    then have "x \<in> set v" using Cons.prems by simp
    then have "x * x \<le> sum_list (map (\<lambda>x. x * x) v)" by (rule Cons.IH)
    then show ?thesis using \<open>0 \<le> a * a\<close> by (simp add: add_increasing)
  qed
qed

lemma unit_entries: "norm_sq v = 1 \<Longrightarrow> x \<in> set v \<Longrightarrow> \<bar>x\<bar> \<le> 1"
proof -
  assume "norm_sq v = 1" "x \<in> set v"
  then have "x * x \<le> 1" using entry_le_norm_sq [of x v] by simp
  then have "\<bar>x\<bar> * \<bar>x\<bar> \<le> 1 * 1" by (simp add: abs_mult_self_eq)
  then show "\<bar>x\<bar> \<le> 1"
    by (metis abs_ge_zero mult_less_cancel_left_pos  not_le mult_strict_mono' zero_le_one zero_less_one)
qed

lemma row_bound:
  "(\<forall>x \<in> set w. \<bar>x\<bar> \<le> 1) \<Longrightarrow> \<bar>sum_list (map2 (*) row w)\<bar> \<le> sum_list (map abs row)"
  for w :: "real list"
proof (induction row arbitrary: w)
  case Nil then show ?case by simp
next
  case (Cons a row)
  show ?case
  proof (cases w)
    case Nil
    have "0 \<le> sum_list (map abs row)" by (rule sum_list_nonneg) auto
    then show ?thesis using Nil by simp
  next
    case (Cons x xs)
    have x: "\<bar>x\<bar> \<le> 1" and xs: "\<forall>y \<in> set xs. \<bar>y\<bar> \<le> 1"
      using Cons.prems Cons by auto
    have "\<bar>a * x\<bar> \<le> \<bar>a\<bar>"
      using x by (simp add: abs_mult mult_left_le)
    moreover have "\<bar>sum_list (map2 (*) row xs)\<bar> \<le> sum_list (map abs row)"
      using xs by (rule Cons.IH)
    ultimately show ?thesis using Cons by simp
  qed
qed

lemma bilinear_bound:
  assumes "\<forall>x \<in> set u. \<bar>x\<bar> \<le> 1" "\<forall>x \<in> set w. \<bar>x\<bar> \<le> 1"
  shows "\<bar>bilinear_form u A w\<bar> \<le> sum_list (map (\<lambda>row. sum_list (map abs row)) A)"
  using assms(1) unfolding bilinear_form_def
proof (induction A arbitrary: u)
  case Nil then show ?case by simp
next
  case (Cons r A)
  have nn: "0 \<le> sum_list (map (\<lambda>row. sum_list (map abs row)) A)"
    by (rule sum_list_nonneg) (auto intro!: sum_list_nonneg)
  have nr: "0 \<le> sum_list (map abs r)" by (rule sum_list_nonneg) auto
  show ?case
  proof (cases u)
    case Nil then show ?thesis using nn nr by simp
  next
    case (Cons x xs)
    have x: "\<bar>x\<bar> \<le> 1" and xs: "\<forall>y \<in> set xs. \<bar>y\<bar> \<le> 1"
      using Cons.prems Cons by auto
    have "\<bar>x * sum_list (map2 (*) r w)\<bar> \<le> \<bar>sum_list (map2 (*) r w)\<bar>"
      using x by (simp add: abs_mult mult_left_le_one_le)
    also have "\<dots> \<le> sum_list (map abs r)"
      using assms(2) by (rule row_bound)
    finally have 1: "\<bar>x * sum_list (map2 (*) r w)\<bar> \<le> sum_list (map abs r)" .
    have 2: "\<bar>sum_list (map2 (\<lambda>ui row. ui * sum_list (map2 (*) row w)) xs A)\<bar>
               \<le> sum_list (map (\<lambda>row. sum_list (map abs row)) A)"
      using xs by (rule Cons.IH)
    show ?thesis using 1 2 Cons by simp
  qed
qed

lemma quadratic_form_bound:
  "v \<in> unit_vectors m \<Longrightarrow>
   \<bar>quadratic_form D v\<bar> \<le> sum_list (map (\<lambda>row. sum_list (map abs row)) D)"
proof -
  assume "v \<in> unit_vectors m"
  then have "\<forall>x \<in> set v. \<bar>x\<bar> \<le> 1"
    by (auto simp: unit_vectors_def intro: unit_entries)
  then show ?thesis
    unfolding quadratic_form_bilinear by (intro bilinear_bound)
qed

subsection \<open>The least value of a family of affine functions\<close>

lemma affine_family_bdd_below:
  fixes a b :: "'v \<Rightarrow> real"
  assumes a: "\<forall>v \<in> U. 0 \<le> a v" and b: "\<forall>v \<in> U. \<bar>b v\<bar> \<le> C"
  shows "bdd_below ((\<lambda>v. a v + s * b v) ` U)"
proof (rule bdd_belowI2 [where m = "- \<bar>s\<bar> * C"])
  fix v assume v: "v \<in> U"
  have "\<bar>s * b v\<bar> \<le> \<bar>s\<bar> * C"
    using b v by (simp add: abs_mult mult_left_mono)
  then show "- \<bar>s\<bar> * C \<le> a v + s * b v"
    using a v by (auto simp: abs_le_iff intro: order_trans)
qed

lemma affine_family_lipschitz_le:
  fixes a b :: "'v \<Rightarrow> real"
  assumes ne: "U \<noteq> {}"
      and a: "\<forall>v \<in> U. 0 \<le> a v" and b: "\<forall>v \<in> U. \<bar>b v\<bar> \<le> C"
  shows "Inf ((\<lambda>v. a v + s * b v) ` U) - C * \<bar>s - s'\<bar> \<le> Inf ((\<lambda>v. a v + s' * b v) ` U)"
proof (rule cInf_greatest)
  show "(\<lambda>v. a v + s' * b v) ` U \<noteq> {}" using ne by simp
  fix y assume "y \<in> (\<lambda>v. a v + s' * b v) ` U"
  then obtain v where v: "v \<in> U" and y: "y = a v + s' * b v" by auto
  have 1: "Inf ((\<lambda>v. a v + s * b v) ` U) \<le> a v + s * b v"
    by (rule cInf_lower) (use v affine_family_bdd_below [OF a b] in auto)
  have "\<bar>(s - s') * b v\<bar> \<le> \<bar>s - s'\<bar> * C"
    using b v by (simp add: abs_mult mult_left_mono)
  then have 2: "(s - s') * b v \<le> C * \<bar>s - s'\<bar>"
    by (simp add: abs_le_iff mult.commute)
  have "a v + s * b v = a v + s' * b v + (s - s') * b v"
    by (simp add: algebra_simps)
  then show "Inf ((\<lambda>v. a v + s * b v) ` U) - C * \<bar>s - s'\<bar> \<le> y"
    unfolding y using 1 2 by linarith
qed

lemma affine_family_lipschitz:
  fixes a b :: "'v \<Rightarrow> real"
  assumes ne: "U \<noteq> {}"
      and a: "\<forall>v \<in> U. 0 \<le> a v" and b: "\<forall>v \<in> U. \<bar>b v\<bar> \<le> C"
  shows "\<bar>Inf ((\<lambda>v. a v + s * b v) ` U) - Inf ((\<lambda>v. a v + s' * b v) ` U)\<bar> \<le> C * \<bar>s - s'\<bar>"
proof -
  have 1: "Inf ((\<lambda>v. a v + s * b v) ` U) - C * \<bar>s - s'\<bar> \<le> Inf ((\<lambda>v. a v + s' * b v) ` U)"
    by (rule affine_family_lipschitz_le [OF ne a b])
  have 2: "Inf ((\<lambda>v. a v + s' * b v) ` U) - C * \<bar>s' - s\<bar> \<le> Inf ((\<lambda>v. a v + s * b v) ` U)"
    by (rule affine_family_lipschitz_le [OF ne a b])
  have "\<bar>s' - s\<bar> = \<bar>s - s'\<bar>" by (rule abs_minus_commute)
  then show ?thesis using 1 2 by (simp add: abs_le_iff)
qed

section \<open>Properties of the oracle as specified\<close>

subsection \<open>The first crossing\<close>

lemma lipschitz_isCont:
  fixes G :: "real \<Rightarrow> real"
  assumes lip: "\<forall>s s'. \<bar>G s - G s'\<bar> \<le> C * \<bar>s - s'\<bar>" and C0: "0 \<le> C"
  shows "isCont G x"
  unfolding isCont_def
proof (rule LIM_I)
  fix r :: real assume r: "0 < r"
  define e where "e = r / (C + 1)"
  have e: "0 < e" using r C0 by (simp add: e_def)
  have "\<forall>s. s \<noteq> x \<and> norm (s - x) < e \<longrightarrow> norm (G s - G x) < r"
  proof (intro allI impI)
    fix s assume s: "s \<noteq> x \<and> norm (s - x) < e"
    have "\<bar>G s - G x\<bar> \<le> C * \<bar>s - x\<bar>" using lip by blast
    also have "\<dots> \<le> C * e" using s C0 by (simp add: mult_left_mono)
    also have "\<dots> < (C + 1) * e" using e by (simp add: algebra_simps)
    also have "\<dots> = r" using C0 by (simp add: e_def)
    finally show "norm (G s - G x) < r" by simp
  qed
  then show "\<exists>s>0. \<forall>xa. xa \<noteq> x \<and> norm (xa - x) < s \<longrightarrow> norm (G xa - G x) < r"
    using e by blast
qed

lemma first_crossing:
  fixes G :: "real \<Rightarrow> real"
  assumes lip: "\<forall>s s'. \<bar>G s - G s'\<bar> \<le> C * \<bar>s - s'\<bar>" and C0: "0 \<le> C"
      and G0: "0 \<le> G 0" and tol: "0 < tol"
      and R: "R = {s. 0 < s \<and> \<bar>G s\<bar> \<le> tol}" and ne: "R \<noteq> {}"
  shows "0 \<le> Inf R"
    and "\<bar>G (Inf R)\<bar> \<le> tol"
    and "\<forall>s. 0 \<le> s \<and> s \<le> Inf R \<longrightarrow> - tol \<le> G s"
proof -
  have bdd: "bdd_below R"
    unfolding R by (rule bdd_belowI [where m = 0]) auto
  show t0: "0 \<le> Inf R"
    by (rule cInf_greatest [OF ne]) (auto simp: R)
  show at_t: "\<bar>G (Inf R)\<bar> \<le> tol"
  proof (rule ccontr)
    assume "\<not> \<bar>G (Inf R)\<bar> \<le> tol"
    then have gap: "tol < \<bar>G (Inf R)\<bar>" by simp
    define e where "e = (\<bar>G (Inf R)\<bar> - tol) / (C + 1)"
    have e: "0 < e" using gap C0 by (simp add: e_def)
    have "Inf R < Inf R + e" using e by simp
    then obtain s where s: "s \<in> R" "s < Inf R + e"
      using cInf_lessD [OF ne] by blast
    have "Inf R \<le> s" using s(1) bdd by (rule cInf_lower)
    then have "\<bar>s - Inf R\<bar> < e" using s(2) by simp
    have "\<bar>G s - G (Inf R)\<bar> \<le> C * \<bar>s - Inf R\<bar>" using lip by blast
    also have "\<dots> \<le> C * e" using \<open>\<bar>s - Inf R\<bar> < e\<close> C0 by (simp add: mult_left_mono)
    also have "\<dots> < (C + 1) * e" using e by (simp add: algebra_simps)
    also have "\<dots> = \<bar>G (Inf R)\<bar> - tol" using C0 by (simp add: e_def)
    finally have "\<bar>G s - G (Inf R)\<bar> < \<bar>G (Inf R)\<bar> - tol" .
    then have "tol < \<bar>G s\<bar>" by linarith
    moreover have "\<bar>G s\<bar> \<le> tol" using s(1) by (simp add: R)
    ultimately show False by simp
  qed
  show "\<forall>s. 0 \<le> s \<and> s \<le> Inf R \<longrightarrow> - tol \<le> G s"
  proof (intro allI impI, rule ccontr)
    fix s0 assume s0: "0 \<le> s0 \<and> s0 \<le> Inf R" and "\<not> - tol \<le> G s0"
    then have below: "G s0 < - tol" by simp
    have cont: "\<forall>x. 0 \<le> x \<and> x \<le> s0 \<longrightarrow> isCont G x"
      using lipschitz_isCont [OF lip C0] by blast
    have "\<exists>x. 0 \<le> x \<and> x \<le> s0 \<and> G x = - tol"
      by (rule IVT2) (use below G0 tol s0 cont in auto)
    then obtain x where x: "0 \<le> x" "x \<le> s0" "G x = - tol" by blast
    have "x \<noteq> 0" using x(3) G0 tol by auto
    moreover have "x \<noteq> s0" using x(3) below by auto
    ultimately have "0 < x" "x < s0" using x(1,2) by auto
    then have "x \<in> R" using x(3) tol by (simp add: R)
    then have "Inf R \<le> x" using bdd by (rule cInf_lower)
    then show False using \<open>x < s0\<close> s0 by simp
  qed
qed

lemma all_zero_norm_sq: "(\<forall>x \<in> set v. x = 0) \<Longrightarrow> norm_sq v = 0"
  unfolding norm_sq_def by (induction v) auto

lemma unit_vector_nonzero: "v \<in> unit_vectors m \<Longrightarrow> \<exists>x \<in> set v. x \<noteq> 0"
  using all_zero_norm_sq [of v] by (auto simp: unit_vectors_def)

lemma unit_vectors_nonempty: "0 < m \<Longrightarrow> unit_vectors m \<noteq> {}"
proof -
  assume "0 < m"
  then obtain k where m: "m = Suc k" by (cases m) auto
  have "norm_sq (1 # replicate k 0) = 1"
    unfolding norm_sq_def by (induction k) auto
  then have "1 # replicate k 0 \<in> unit_vectors m"
    by (simp add: unit_vectors_def m)
  then show ?thesis by blast
qed

lemma positive_definite_on_unit:
  "positive_definite A \<Longrightarrow> v \<in> unit_vectors (length A) \<Longrightarrow> 0 < quadratic_form A v"
  using unit_vector_nonzero [of v "length A"]
  by (auto simp: positive_definite_def unit_vectors_def)

text \<open>The pencil A + s D and the matrix at the point p + s d have one quadratic form.\<close>

lemma quadratic_form_pencil:
  assumes "square m A" "square m D"
  shows "quadratic_form (madd A (smul s D)) v = quadratic_form A v + s * quadratic_form D v"
    and "length (madd A (smul s D)) = m"
proof -
  have "square m (smul s D)" using assms(2) by (rule square_smul)
  then show "quadratic_form (madd A (smul s D)) v = quadratic_form A v + s * quadratic_form D v"
    using assms(1)
    by (simp add: quadratic_form_bilinear bilinear_madd square_same_rows bilinear_smul)
  show "length (madd A (smul s D)) = m"
    using square_madd [OF assms(1) \<open>square m (smul s D)\<close>] by (simp add: square_def)
qed

lemma smallest_eigenvalue_pencil:
  assumes "square m A" "square m D"
  shows "smallest_eigenvalue (madd A (smul s D))
           = Inf ((\<lambda>v. quadratic_form A v + s * quadratic_form D v) ` unit_vectors m)"
  unfolding smallest_eigenvalue_def
  by (simp add: quadratic_form_pencil [OF assms] cong: image_cong_simp)

lemma LMI_ok_square:
  assumes "LMI_ok L"
  shows "square (length (getA0 L)) (getA0 L)" "\<forall>A \<in> set (getAi L). square (length (getA0 L)) A"
    "0 < length (getA0 L)"
  using assms by (auto simp: LMI_ok_def)

lemma evaluate_on_ray:
  assumes ok: "LMI_ok L" and A: "evaluate L p = Inr A" and D: "derivative L d = Inr D"
  shows "\<exists>A'. evaluate L (ray p d s) = Inr A' \<and>
              smallest_eigenvalue A' = smallest_eigenvalue (madd A (smul s D))"
proof -
  define m where "m = length (getA0 L)"
  note sq = LMI_ok_square [OF ok, folded m_def]
  have lp: "length p = length (getAi L)"
    using A by (auto simp: evaluate_def split: if_splits)
  have ld: "length d = length (getAi L)"
    using D by (auto simp: derivative_def split: if_splits)
  have lr: "length (ray p d s) = length (getAi L)"
    by (simp add: ray_def lp ld)
  define A' where "A' = foldl madd (getA0 L) (map2 smul (ray p d s) (getAi L))"
  have A': "evaluate L (ray p d s) = Inr A'"
    by (simp add: evaluate_def lr A'_def)
  have sqA: "square m A" by (rule bilinear_evaluate(2) [OF sq(1,2) A])
  have sqD: "square m D" by (rule bilinear_derivative(2) [OF sq(2) D m_def])
  have sqA': "square m A'" by (rule bilinear_evaluate(2) [OF sq(1,2) A'])
  have qf: "quadratic_form A' v = quadratic_form A v + s * quadratic_form D v" for v
    unfolding quadratic_form_bilinear
    by (simp add: bilinear_evaluate(1) [OF sq(1,2) A'] bilinear_evaluate(1) [OF sq(1,2) A]
        bilinear_derivative(1) [OF sq(2) D m_def] sum_along_ray [OF lp ld])
  have "length A' = m" using sqA' by (simp add: square_def)
  then have "smallest_eigenvalue A' = smallest_eigenvalue (madd A (smul s D))"
    unfolding smallest_eigenvalue_pencil [OF sqA sqD]
    by (simp add: smallest_eigenvalue_def qf cong: image_cong_simp)
  then show ?thesis using A' by blast
qed

subsection \<open>Matrices with one entry\<close>

lemma unit_vectors_1: "unit_vectors (Suc 0) = {[1], [- 1]}"
proof -
  have "v \<in> unit_vectors (Suc 0) \<longleftrightarrow> v = [1] \<or> v = [- 1]" for v
  proof (cases v)
    case Nil
    then show ?thesis by (simp add: unit_vectors_def)
  next
    case (Cons x xs)
    have "x * x = 1 \<longleftrightarrow> x = 1 \<or> x = - 1"
      using power2_eq_1_iff [of x] by (simp add: power2_eq_square)
    then show ?thesis using Cons by (auto simp: unit_vectors_def norm_sq_def)
  qed
  then show ?thesis by blast
qed

lemma smallest_eigenvalue_1x1: "smallest_eigenvalue [[a]] = a"
  by (simp add: smallest_eigenvalue_def unit_vectors_1 quadratic_form_def)

lemma positive_definite_1x1: "positive_definite [[a]] \<longleftrightarrow> 0 < a"
proof
  assume "positive_definite [[a]]"
  then have "0 < quadratic_form [[a]] [1]" by (simp add: positive_definite_def)
  then show "0 < a" by (simp add: quadratic_form_def)
next
  assume a: "0 < a"
  show "positive_definite [[a]]"
    unfolding positive_definite_def
  proof (intro allI impI)
    fix v :: VT assume v: "length v = length [[a]] \<and> (\<exists>vi \<in> set v. vi \<noteq> 0)"
    then obtain x where x: "v = [x]" by (cases v) auto
    then have "x \<noteq> 0" using v by simp
    then have "0 < x * x" by (auto simp: zero_less_mult_iff)
    then have "0 < a * (x * x)" using a by simp
    then show "0 < quadratic_form [[a]] v" by (simp add: quadratic_form_def x mult_ac)
  qed
qed

subsection \<open>The oracle on the fixtures\<close>

lemma flat_evaluate: "evaluate flat_LMI [x] = Inr [[1]]"
  by (simp add: evaluate_def flat_LMI_def madd_def smul_def)

lemma flat_derivative: "derivative flat_LMI [y] = Inr [[0]]"
  by (simp add: derivative_def flat_LMI_def madd_def smul_def mzero_def)

lemma flat_crossings: "crossings (1 / 2) [[1]] [[0]] = {}"
  by (simp add: crossings_def singular_within_def madd_def smul_def smallest_eigenvalue_1x1)

lemma flat_first_exit: "first_exit (1 / 2) flat_LMI [0] [1] = Inr Unbounded"
  by (simp add: first_exit_def flat_evaluate flat_derivative flat_crossings)

lemma halfline_evaluate: "evaluate halfline_LMI [x] = Inr [[1 - x]]"
  by (simp add: evaluate_def halfline_LMI_def madd_def smul_def)

lemma halfline_derivative: "derivative halfline_LMI [1] = Inr [[- 1]]"
  by (simp add: derivative_def halfline_LMI_def madd_def smul_def mzero_def)

lemma halfline_crossings: "crossings (1 / 10) [[1]] [[- 1]] = {9 / 10 .. 11 / 10}"
proof -
  have "singular_within (1 / 10) (madd [[1]] (smul s [[- 1]])) \<longleftrightarrow> \<bar>1 - s\<bar> \<le> 1 / 10" for s
    by (simp add: singular_within_def madd_def smul_def smallest_eigenvalue_1x1)
  then have "crossings (1 / 10) [[1]] [[- 1]] = {s. 0 < s \<and> \<bar>1 - s\<bar> \<le> 1 / 10}"
    by (simp add: crossings_def)
  also have "\<dots> = {9 / 10 .. 11 / 10}"
    unfolding abs_le_iff by auto
  finally show ?thesis .
qed

lemma halfline_firstExit: "firstExit (1 / 10) halfline_LMI [0] [1] = Inr (9 / 10)"
  using halfline_evaluate [of 0]
  by (simp add: firstExit_def first_exit_def halfline_derivative halfline_crossings)

lemma halfline_ok: "LMI_ok halfline_LMI"
  by (simp add: LMI_ok_def halfline_LMI_def square_def symmetric_def)

lemma halfline_feasible: "strictly_feasible halfline_LMI [0]"
  using halfline_evaluate [of 0] by (simp add: strictly_feasible_def positive_definite_1x1)



subsection \<open>A zero coefficient matrix\<close>





subsection \<open>The sentinel, along the ray\<close>




subsection \<open>An error thrown by a walk\<close>








subsection \<open>A run whose first walk finds no crossing\<close>








section \<open>The claims\<close>

text \<open>
  C1, as stated: for every strictly feasible point p and every direction d,
  \<open>firstExit(p, d)\<close> returns a scalar t \<ge> 0 such that A(p + t d) is singular within
  the tolerance and A(p + s d) is positive semidefinite up to the tolerance for every
  s between 0 and t. The oracle is taken as section 4.2 describes it. Along a
  direction in which the body does not end there is no such t for any oracle to
  return: for A(x) = 1 the point 0 is strictly feasible, A is nowhere singular within
  the tolerance 1/2 along the ray from 0 in the direction 1, and the oracle answers
  with the sentinel, which is the error UnboundedDirection and not a scalar.
\<close>

theorem no_crossing_on_the_whole_line:
  "strictly_feasible flat_LMI [0] \<and>
   firstExit (1 / 2) flat_LMI [0] [1] = Inl UnboundedDirection \<and>
   \<not> (\<exists>t A. evaluate flat_LMI (ray [0] [1] t) = Inr A \<and> singular_within (1 / 2) A)"
proof -
  have "strictly_feasible flat_LMI [0]"
    using flat_evaluate [of 0] by (simp add: strictly_feasible_def positive_definite_1x1)
  moreover have "firstExit (1 / 2) flat_LMI [0] [1] = Inl UnboundedDirection"
    by (simp add: firstExit_def flat_first_exit)
  moreover have "\<not> singular_within (1 / 2) A" if "evaluate flat_LMI (ray [0] [1] t) = Inr A" for t A
  proof -
    have "A = [[1]]"
      using that flat_evaluate [of t] by (simp add: ray_def)
    then show ?thesis
      by (simp add: singular_within_def smallest_eigenvalue_1x1)
  qed
  ultimately show ?thesis by blast
qed

text \<open>
  C1, amended: for every well-formed LMI, every positive tolerance, every strictly
  feasible point p and every direction d along which the oracle finds a crossing
  (\<open>firstExit(p, d)\<close> returns a scalar t and not the sentinel), t \<ge> 0, A(p + t d) is
  singular within the tolerance, and A(p + s d) is positive semidefinite up to the
  tolerance for every s with 0 \<le> s \<le> t. The oracle is the smallest positive root
  within tolerance of section 4.2; that the root is attained, and that nothing before
  it falls below minus the tolerance, is what is proved.
\<close>

theorem firstExit_contract:
  assumes ok: "LMI_ok L" and tol: "0 < tol" and sf: "strictly_feasible L p"
      and ex: "firstExit tol L p d = Inr t"
  shows "0 \<le> t \<and>
         (\<exists>A. evaluate L (ray p d t) = Inr A \<and> singular_within tol A) \<and>
         (\<forall>s. 0 \<le> s \<and> s \<le> t \<longrightarrow> (\<exists>A. evaluate L (ray p d s) = Inr A \<and> psd_within tol A))"
proof -
  define m where "m = length (getA0 L)"
  note sq = LMI_ok_square [OF ok, folded m_def]
  obtain A where A: "evaluate L p = Inr A" and pd: "positive_definite A"
    using sf by (auto simp: strictly_feasible_def split: sum.splits)
  obtain D where D: "derivative L d = Inr D"
    using ex A by (auto simp: firstExit_def first_exit_def split: sum.splits)
  have ne: "crossings tol A D \<noteq> {}" and t: "t = Inf (crossings tol A D)"
    using ex A D by (auto simp: firstExit_def first_exit_def split: if_splits)
  have sqA: "square m A" by (rule bilinear_evaluate(2) [OF sq(1,2) A])
  have sqD: "square m D" by (rule bilinear_derivative(2) [OF sq(2) D m_def])
  have lenA: "length A = m" using sqA by (simp add: square_def)
  define U where "U = unit_vectors m"
  define C where "C = sum_list (map (\<lambda>row. sum_list (map abs row)) D)"
  define G where "G s = Inf ((\<lambda>v. quadratic_form A v + s * quadratic_form D v) ` U)" for s
  have U: "U \<noteq> {}" unfolding U_def using sq(3) by (rule unit_vectors_nonempty)
  have a: "\<forall>v \<in> U. 0 \<le> quadratic_form A v"
    using positive_definite_on_unit [OF pd] by (auto simp: U_def lenA intro: less_imp_le)
  have b: "\<forall>v \<in> U. \<bar>quadratic_form D v\<bar> \<le> C"
    unfolding U_def C_def by (auto intro: quadratic_form_bound)
  have C0: "0 \<le> C"
  proof -
    obtain v where "v \<in> U" using U by auto
    then have "\<bar>quadratic_form D v\<bar> \<le> C" using b by auto
    then show ?thesis by linarith
  qed
  have G: "smallest_eigenvalue (madd A (smul s D)) = G s" for s
    unfolding G_def U_def by (rule smallest_eigenvalue_pencil [OF sqA sqD])
  have lip: "\<forall>s s'. \<bar>G s - G s'\<bar> \<le> C * \<bar>s - s'\<bar>"
    unfolding G_def using affine_family_lipschitz [OF U a b] by blast
  have G0: "0 \<le> G 0"
    unfolding G_def by (rule cInf_greatest) (use U a in auto)
  have R: "crossings tol A D = {s. 0 < s \<and> \<bar>G s\<bar> \<le> tol}"
    by (simp add: crossings_def singular_within_def G)
  note fc = first_crossing [OF lip C0 G0 tol R ne, folded t]
  have on_ray: "\<exists>A'. evaluate L (ray p d s) = Inr A' \<and> smallest_eigenvalue A' = G s" for s
    using evaluate_on_ray [OF ok A D, of s] by (simp add: G)
  show ?thesis
  proof (intro conjI allI impI)
    show "0 \<le> t" by (rule fc(1))
    show "\<exists>A. evaluate L (ray p d t) = Inr A \<and> singular_within tol A"
      using on_ray [of t] fc(2) by (auto simp: singular_within_def)
    fix s assume "0 \<le> s \<and> s \<le> t"
    then have "- tol \<le> G s" using fc(3) by blast
    then show "\<exists>A. evaluate L (ray p d s) = Inr A \<and> psd_within tol A"
      using on_ray [of s] by (auto simp: psd_within_def)
  qed
qed

theorem firstExit_contract_witness:
  "firstExit (1 / 10) halfline_LMI [0] [1] = Inr (9 / 10) \<and>
   (\<exists>A. evaluate halfline_LMI (ray [0] [1] (9 / 10)) = Inr A \<and> singular_within (1 / 10) A) \<and>
   (\<exists>A. evaluate halfline_LMI (ray [0] [1] (1 / 2)) = Inr A \<and> psd_within (1 / 10) A)"
proof -
  have tol: "0 < (1 / 10 :: NT)" by simp
  note contract = firstExit_contract [OF halfline_ok tol halfline_feasible halfline_firstExit]
  have at_t: "\<exists>A. evaluate halfline_LMI (ray [0] [1] (9 / 10)) = Inr A \<and> singular_within (1 / 10) A"
    using contract by blast
  have before: "\<forall>s. 0 \<le> s \<and> s \<le> 9 / 10 \<longrightarrow>
                  (\<exists>A. evaluate halfline_LMI (ray [0] [1] s) = Inr A \<and> psd_within (1 / 10) A)"
    using contract by blast
  have "(0 :: NT) \<le> 1 / 2 \<and> (1 / 2 :: NT) \<le> 9 / 10" by simp
  then have "\<exists>A. evaluate halfline_LMI (ray [0] [1] (1 / 2)) = Inr A \<and> psd_within (1 / 10) A"
    using before by blast
  then show ?thesis
    using at_t halfline_firstExit by blast
qed

text \<open>
  C3. The driver is to hand back the samples it accumulated, one row per sample, in
  the order they were generated. It does not: line 107 returns \<open>Rcpp::wrap(Ratios)\<close>,
  and \<open>randPoints\<close> is never read after line 96. On the concrete run the list holds
  five points in generation order and the value returned is the empty matrix
  \<open>Ratios\<close>.
\<close>

theorem opti_exp_returns_Ratios_not_randPoints:
  "randPoints example_run = [[1, 1], [2, 2], [3, 3], [4, 4], [5, 5]] \<and>
   returned example_run = Inr (Ratios example_externals) \<and>
   returned example_run \<noteq> Inr (randPoints example_run)"
  by (simp add: example_run_randPoints example_run_returned example_fields)

text \<open>
  C4, as stated: the Boltzmann-HMC settings are scoped to one walk invocation, so
  every invocation starts with the first-step flag set and nothing is carried from
  one invocation into the next. The driver builds \<open>settings2\<close> once, before the loops
  (lines 77-79), and hands the same object to every invocation: on the concrete run
  the second invocation already starts with the flag cleared.
\<close>

theorem first_flag_cleared_before_second_walk:
  "\<not> first (arg_settings (walks example_run ! 1))"
  by (simp add: example_run_simps)

text \<open>
  C4, amended: the first invocation of a call starts with the settings of lines
  77-79 (first-step flag set, epsilon 0.0001), and every later invocation starts with
  the settings exactly as the invocation before it left them.
\<close>

theorem settings2_handed_from_walk_to_walk:
  fixes E nn mm N M walk_length walk_type
  defines "ws \<equiv> walks (opti_exp E nn mm N M walk_length walk_type)"
  shows "(ws \<noteq> [] \<longrightarrow> arg_settings (hd ws) = \<lparr>first = True, epsilon = 1 / 10000\<rparr>) \<and>
         (\<forall>i. Suc i < length ws \<longrightarrow> settings_left (ws ! i) = Some (arg_settings (ws ! Suc i)))"
proof (cases "preprocessed E nn mm walk_length")
  case (Inl e)
  then show ?thesis by (simp add: ws_def opti_exp_def)
next
  case (Inr t)
  obtain n W r where t: "t = (n, W, r)" by (cases t) auto
  have ws: "ws = l_walks (sampling E n W r (get_direction E n) (total_time (r_var r)))"
    using Inr t by (simp add: ws_def opti_exp_def Let_def)
  show ?thesis
    using sampling_threaded [of E n W r "get_direction E n" "total_time (r_var r)"]
    unfolding ws
    by (simp add: threaded_def settings2_constructed_def)
qed

theorem settings2_handed_from_walk_to_walk_witness:
  "arg_settings (hd (walks example_run)) = \<lparr>first = True, epsilon = 1 / 10000\<rparr> \<and>
   settings_left (walks example_run ! 0) = Some (arg_settings (walks example_run ! Suc 0))"
proof -
  have ne: "walks example_run \<noteq> []"
    using example_run_walks(1) by auto
  have len: "Suc 0 < length (walks example_run)"
    by (simp add: example_run_walks(1))
  show ?thesis
    using settings2_handed_from_walk_to_walk
            [of example_externals "Some 2" "Some 2" None None "Some 1" None] ne len
    unfolding example_run_def by blast
qed

text \<open>
  C5. Every Boltzmann-HMC invocation is given, as its time, exactly 2.0 times the
  diameter that the configuration \<open>var\<close> holds once preprocessing has returned
  (line 88 computes it once, line 94 passes it on).
\<close>

theorem every_walk_gets_twice_the_diameter:
  assumes "preprocessed E nn mm walk_length = Inr (n, W, r)"
      and "w \<in> set (walks (opti_exp E nn mm N M walk_length walk_type))"
  shows "arg_T w = (case diameter (r_var r) of None \<Rightarrow> None | Some d \<Rightarrow> Some (2 * d))"
  using assms sampling_walks_T [of E n W r "get_direction E n" "total_time (r_var r)"]
  by (auto simp: opti_exp_def Let_def total_time_def split: option.splits)

theorem every_walk_gets_twice_the_diameter_witness:
  "arg_T (hd (walks example_run)) = Some (2 * 1)"
proof -
  have "walks example_run \<noteq> []"
    using example_run_walks(1) by auto
  then have "hd (walks example_run) \<in> set (walks example_run)"
    by simp
  then show ?thesis
    using every_walk_gets_twice_the_diameter [OF example_preprocessed, of "hd (walks example_run)"]
    unfolding example_run_def by simp
qed

text \<open>
  C6. Preprocessing locates an interior point by a feasibility search before any
  sampling, and if no strictly feasible point exists it fails with Infeasible, which
  ends the call: nothing is sampled. Preprocessing is taken as the specification
  describes it (its search fails exactly when there is no strictly feasible point);
  the driver is the code. If a walk was made or a point accumulated, preprocessing
  had come back with an inner point that is strictly feasible; if no strictly
  feasible point exists, preprocessing fails with Infeasible and the call ends in
  Infeasible with no walk made and no point accumulated.
\<close>

theorem infeasible_ends_the_call:
  assumes "prologue E nn mm walk_length = Inr (n, W, r0)"
      and "preproccess_spectrahedron E = preproccess_spectrahedron_spec Q"
  shows "(walks (opti_exp E nn mm N M walk_length walk_type) \<noteq> [] \<or>
          randPoints (opti_exp E nn mm N M walk_length walk_type) \<noteq> [] \<longrightarrow>
            (\<exists>res. prepare Q (r_SP r0) = Inr res \<and>
                   strictly_feasible (getLMI (r_SP r0)) (innerPoint res))) \<and>
         ((\<nexists>x. strictly_feasible (getLMI (r_SP r0)) x) \<longrightarrow>
            prepare Q (r_SP r0) = Inl Infeasible \<and>
            returned (opti_exp E nn mm N M walk_length walk_type) = Inl Infeasible \<and>
            randPoints (opti_exp E nn mm N M walk_length walk_type) = [] \<and>
            walks (opti_exp E nn mm N M walk_length walk_type) = [])"
proof (cases "prepare Q (r_SP r0)")
  case (Inl e)
  then have pre: "preprocessed E nn mm walk_length = Inl e"
    using assms by (simp add: preprocessed_def preproccess_spectrahedron_spec_def)
  have "e = Infeasible" if "\<nexists>x. strictly_feasible (getLMI (r_SP r0)) x"
    using prepare_no_interior [OF that, of Q] Inl by simp
  then show ?thesis
    using pre Inl by (auto simp: opti_exp_def)
next
  case (Inr res)
  then have "strictly_feasible (getLMI (r_SP r0)) (innerPoint res)"
    by (rule prepare_inner_point)
  then show ?thesis
    using Inr by blast
qed

theorem infeasible_ends_the_call_witness:
  "prepare example_parts infeasible_SP = Inl Infeasible \<and>
   returned (opti_exp infeasible_externals (Some 1) (Some 1) None None (Some 1) None)
     = Inl Infeasible \<and>
   randPoints (opti_exp infeasible_externals (Some 1) (Some 1) None None (Some 1) None) = [] \<and>
   walks (opti_exp infeasible_externals (Some 1) (Some 1) None None (Some 1) None) = [] \<and>
   (\<exists>res. prepare example_parts example_SP = Inr res \<and>
          strictly_feasible (getLMI example_SP) (innerPoint res))"
proof -
  have uses: "preproccess_spectrahedron infeasible_externals
                = preproccess_spectrahedron_spec example_parts"
    by (simp add: infeasible_externals_def)
  have none: "\<nexists>x. strictly_feasible (getLMI infeasible_SP) x"
    using infeasible_SP_has_no_interior by blast
  have fails:
    "prepare example_parts infeasible_SP = Inl Infeasible \<and>
     returned (opti_exp infeasible_externals (Some 1) (Some 1) None None (Some 1) None)
       = Inl Infeasible \<and>
     randPoints (opti_exp infeasible_externals (Some 1) (Some 1) None None (Some 1) None) = [] \<and>
     walks (opti_exp infeasible_externals (Some 1) (Some 1) None None (Some 1) None) = []"
    using infeasible_ends_the_call [OF infeasible_prologue uses, of None None None] none
    by simp
  have uses': "preproccess_spectrahedron prepared_externals
                 = preproccess_spectrahedron_spec example_parts"
    by (simp add: prepared_externals_def)
  have sampled: "walks (opti_exp prepared_externals (Some 2) (Some 2) None None (Some 1) None) \<noteq> []"
    using example_run_walks(1) by (auto simp: prepared_run_walks)
  have "\<exists>res. prepare example_parts example_SP = Inr res \<and>
              strictly_feasible (getLMI example_SP) (innerPoint res)"
    using infeasible_ends_the_call [OF prepared_prologue uses', of None None None] sampled
    by simp
  then show ?thesis
    using fails by blast
qed



text \<open>
  C8. A Boltzmann-HMC walk invocation with total time 0 returns the starting point
  unchanged, whatever the spectrahedron, the starting point and the direction \<open>c\<close>.
  The walk is taken as the specification describes it; the point and \<open>c\<close> have one
  dimension, the velocity drawn has it too, and the oracle answers with a time that
  is not negative (or with the sentinel), as its contract says. What comes back is
  the starting point, the generator as the draw of the velocity left it, and the
  settings with the first-step flag cleared.
\<close>

theorem walk_of_no_time_stays:
  assumes "length c = length p"
      and "initial_velocity P (rng var) (length p) = (v, g)"
      and "length v = length p"
      and "no_later_than 0 (crossing_time P SP st p v c)"
  shows "HMC_boltzmann_reflections_spec P SP p var c 0 st
           = Inr (p, var\<lparr>rng := g\<rparr>, st\<lparr>first := False\<rparr>)"
proof -
  define s0 where "s0 = \<lparr>point = p, direction = v, remaining = 0, reflections = 0\<rparr>"
  have run: "integrate P SP c (max_reflections P) s0 st = (arrive P c s0, st\<lparr>first := False\<rparr>)"
    using assms(4) by (intro integrate_no_time) (simp_all add: s0_def)
  have "point (arrive P c s0) = point s0"
    using assms(1,3) by (intro arrive_no_time) (simp_all add: s0_def)
  then have "point (arrive P c s0) = p"
    by (simp add: s0_def)
  then show ?thesis
    using assms(1,2,3) run by (simp add: HMC_boltzmann_reflections_spec_def s0_def)
qed

theorem walk_of_no_time_stays_witness:
  "HMC_boltzmann_reflections_spec bouncing example_SP [0, 0]
      (var_constructed example_externals 2) [1, 1] 0 settings2_constructed
    = Inr ([0, 0],
           (var_constructed example_externals 2)\<lparr>rng := \<lparr>rng_seed = 0, rng_drawn = 2\<rparr>\<rparr>,
           \<lparr>first = False, epsilon = 1 / 10000\<rparr>)"
proof -
  have drawn: "initial_velocity bouncing (rng (var_constructed example_externals 2)) (length [0, 0 :: NT])
                 = ([1, 1], \<lparr>rng_seed = 0, rng_drawn = 2\<rparr>)"
    by (simp add: bouncing_def var_constructed_def example_fields replicate_2)
  have "HMC_boltzmann_reflections_spec bouncing example_SP [0, 0]
          (var_constructed example_externals 2) [1, 1] 0 settings2_constructed
        = Inr ([0, 0],
               (var_constructed example_externals 2)\<lparr>rng := \<lparr>rng_seed = 0, rng_drawn = 2\<rparr>\<rparr>,
               settings2_constructed\<lparr>first := False\<rparr>)"
    by (rule walk_of_no_time_stays [OF _ drawn]) (simp_all add: bouncing_def no_later_than_def)
  then show ?thesis
    by (simp add: settings2_constructed_def)
qed

text \<open>
  C9. The configuration \<open>var\<close> is constructed (lines 67-68) from \<open>diam_spec\<close>, which has
  no value yet, and from \<open>InnerB.second\<close>, which nothing has assigned (it is as the
  default-constructed pair holds it, the inner-ball computation being commented
  out); \<open>rad\<close> has no value either. So the time of line 88 has a value exactly when
  the diameter field that preprocessing hands back differs from the one it was
  given, and that time is what every walk receives.
\<close>

theorem diameter_unset_before_preprocessing:
  assumes "prologue E nn mm walk_length = Inr (n, W, r0)"
      and "preproccess_spectrahedron E r0 = Inr r"
  shows "diameter (r_var r0) = None \<and> r_diam_spec r0 = None \<and> r_rad r0 = None \<and>
         che_rad (r_var r0) = InnerB_second \<and>
         (total_time (r_var r) \<noteq> None \<longleftrightarrow> diameter (r_var r) \<noteq> diameter (r_var r0)) \<and>
         (\<forall>w \<in> set (walks (opti_exp E nn mm N M walk_length walk_type)).
            arg_T w = total_time (r_var r))"
proof -
  have r0: "diameter (r_var r0) = None \<and> r_diam_spec r0 = None \<and> r_rad r0 = None \<and>
            che_rad (r_var r0) = InnerB_second"
    using assms(1)
    by (auto simp: prologue_def var_constructed_def diam_spec_declared_def rad_declared_def
        split: sum.splits)
  have pre: "preprocessed E nn mm walk_length = Inr (n, W, r)"
    using assms by (simp add: preprocessed_def)
  have "\<forall>w \<in> set (walks (opti_exp E nn mm N M walk_length walk_type)).
          arg_T w = total_time (r_var r)"
    using pre sampling_walks_T [of E n W r "get_direction E n" "total_time (r_var r)"]
    by (simp add: opti_exp_def Let_def)
  then show ?thesis
    using r0 by (simp add: total_time_def)
qed

theorem diameter_unset_before_preprocessing_witness:
  "diameter (var_constructed example_externals 2) = None \<and>
   che_rad (var_constructed example_externals 2) = Some 0 \<and>
   total_time ((var_constructed example_externals 2)\<lparr>diameter := Some 1\<rparr>) \<noteq> None \<and>
   arg_T (hd (walks example_run)) = Some 2"
proof -
  have pre: "preproccess_spectrahedron example_externals
               \<lparr>r_SP = example_SP, r_p = [0, 0], r_var = var_constructed example_externals 2,
                r_settings = \<lparr>LMIatP = [[1, 0], [0, 1]]\<rparr>, r_round_value = Some 1,
                r_diam_spec = None, r_rad = None, r_round = False\<rparr> =
             Inr \<lparr>r_SP = example_SP, r_p = [0, 0],
                  r_var = (var_constructed example_externals 2)\<lparr>diameter := Some 1\<rparr>,
                  r_settings = \<lparr>LMIatP = [[1, 0], [0, 1]]\<rparr>, r_round_value = Some 1,
                  r_diam_spec = Some 1, r_rad = Some 1, r_round = False\<rparr>"
    by (simp add: example_fields example_preprocess_def)
  have "walks example_run \<noteq> []"
    using example_run_walks(1) by auto
  then have "hd (walks example_run) \<in> set (walks example_run)"
    by simp
  then show ?thesis
    using diameter_unset_before_preprocessing
            [OF example_prologue pre, of None None None]
    unfolding example_run_def by (simp add: InnerB_second_def total_time_def)
qed

text \<open>
  C10. The call does not depend on the parameters \<open>N\<close> and \<open>M\<close>: whatever the two are,
  the same walks are made, the same points accumulated and the same value returned.
  The middle loop is bounded by \<open>N2\<close>, the value returned is \<open>Ratios\<close>, and neither
  \<open>N\<close> nor \<open>M\<close> is read anywhere.
\<close>

theorem opti_exp_ignores_N_and_M:
  "opti_exp E nn mm N M walk_length walk_type = opti_exp E nn mm N' M' walk_length walk_type"
  by (simp add: opti_exp_def)

theorem opti_exp_ignores_N_and_M_witness:
  "opti_exp example_externals (Some 2) (Some 2) (Some 1000) (Some 7) (Some 1) None = example_run"
  unfolding example_run_def
  by (rule opti_exp_ignores_N_and_M)

end
